theory Spec2Isabelle
  imports Complex_Main "HOL-Library.Sublist"
begin

unbundle bit_operations_syntax

section \<open>JavaScript values\<close>

text \<open>
  The program is TypeScript, but every value it reads from the credential file or from the
  token endpoint has the static type \<open>any\<close>, so the model works on run-time values.
  A finite number is the rational it denotes, next to \<open>NaN\<close>. Sums and products are
  computed in the model only where IEEE double arithmetic is exact, on integers of magnitude
  up to \<open>2^53\<close> with such a result; everywhere else the result is asked of an oracle of
  the world, which stands for the floating-point unit. Infinities are outside the model.
  An object is the list of its own properties in enumeration order, with distinct keys.
\<close>

datatype jsnum = Fin rat | NaN

datatype jsval =
    JUndefined
  | JNull
  | JBool bool
  | JNum jsnum
  | JStr string
  | JArr "jsval list"
  | JObj "(string \<times> jsval) list"

text \<open>What a JavaScript conditional takes for true.\<close>

fun truthy :: "jsval \<Rightarrow> bool" where
  "truthy JUndefined = False"
| "truthy JNull = False"
| "truthy (JBool b) = b"
| "truthy (JNum (Fin q)) = (q \<noteq> 0)"
| "truthy (JNum NaN) = False"
| "truthy (JStr s) = (s \<noteq> [])"
| "truthy (JArr xs) = True"
| "truthy (JObj ms) = True"

text \<open>An integer that every double arithmetic handles exactly.\<close>

definition safe_int :: "rat \<Rightarrow> bool" where
  "safe_int q = (q = of_int \<lfloor>q\<rfloor> \<and> \<bar>q\<bar> \<le> 9007199254740992)"

text \<open>\<open>a + b\<close> and \<open>a * b\<close> on numbers; \<open>fl\<close> is the oracle for the results that
  need rounding.\<close>

definition num_add :: "(rat \<Rightarrow> rat \<Rightarrow> jsnum) \<Rightarrow> jsnum \<Rightarrow> jsnum \<Rightarrow> jsnum" where
  "num_add fl a b = (case (a, b) of
       (Fin x, Fin y) \<Rightarrow>
         if safe_int x \<and> safe_int y \<and> safe_int (x + y) then Fin (x + y) else fl x y
     | _ \<Rightarrow> NaN)"

definition num_mul :: "(rat \<Rightarrow> rat \<Rightarrow> jsnum) \<Rightarrow> jsnum \<Rightarrow> jsnum \<Rightarrow> jsnum" where
  "num_mul fl a b = (case (a, b) of
       (Fin x, Fin y) \<Rightarrow>
         if safe_int x \<and> safe_int y \<and> safe_int (x * y) then Fin (x * y) else fl x y
     | _ \<Rightarrow> NaN)"

text \<open>\<open>a > b\<close> on numbers: false as soon as one side is \<open>NaN\<close>.\<close>

definition num_gt :: "jsnum \<Rightarrow> jsnum \<Rightarrow> bool" where
  "num_gt a b = (case (a, b) of (Fin x, Fin y) \<Rightarrow> y < x | _ \<Rightarrow> False)"

section \<open>Outcomes of asynchronous operations\<close>

datatype fs_op = OpReadFile | OpMkdir | OpWriteFile | OpChmod | OpUnlink

datatype exn =
    Error string
  | TypeError
  | FetchError
  | DecodeError
  | FsError fs_op
  | SyntaxError
  | ExecError
  | CallbackError

text \<open>
  An awaited operation returns a value, throws (a rejected promise), or never settles.
\<close>

datatype 'a outcome = Ok 'a | Throw exn | Pending

section \<open>The world the program runs in\<close>

type_synonym path = "string list"

record request =
  url :: string
  http_method :: string
  headers :: "(string \<times> string) list"
  body :: "string option"

record response =
  ok :: bool
  statusText :: string
  json :: "exn + jsval"

datatype event =
    EvReadFile path
  | EvMkdir path
  | EvWriteFile path string
  | EvChmod path nat
  | EvUnlink path
  | EvFetch request
  | EvResponse
  | EvBody
  | EvRandomBytes nat
  | EvExec string
  | EvConsoleLog string
  | EvAuthUrlReady string
  | EvPromptForCode
  | EvStdinRead
  | EvOnSuccess

text \<open>
  The file system is the set of directories, the contents of the files and their permission
  bits. Everything the program cannot decide is an oracle of the world: the clock, the
  random source, the token endpoint, the faults of the file system, the outcome of the
  browser launcher, what arrives on standard input, and the operations of the language whose results the model does not compute
  (\<open>coerce\<close>: ToNumber of a string or an array; \<open>num_text\<close>: the text of a number that
  is not an integer of magnitude up to \<open>2^53\<close>; \<open>fl_add\<close> and \<open>fl_mul\<close>: sums and
  products that need rounding). The oracles that stand for something outside the process
  see the trace of what the process has done so far; so does the clock, whose reading
  depends on the moment it is taken, that is on what has happened before, and on how many
  times it has been read.
\<close>

record world =
  home :: path
  platform :: string
  dirs :: "path set"
  files :: "path \<rightharpoonup> string"
  modes :: "path \<rightharpoonup> nat"
  trace :: "event list"
  clock :: "event list \<Rightarrow> nat \<Rightarrow> int"
  ticks :: nat
  secure_random :: "nat \<Rightarrow> nat"
  drawn :: nat
  net :: "event list \<Rightarrow> request \<Rightarrow> exn + response"
  fs_fault :: "event list \<Rightarrow> fs_op \<Rightarrow> bool"
  exec_result :: "event list \<Rightarrow> string \<Rightarrow> unit outcome"
  coerce :: "jsval \<Rightarrow> jsnum"
  num_text :: "rat \<Rightarrow> string"
  fl_add :: "rat \<Rightarrow> rat \<Rightarrow> jsnum"
  fl_mul :: "rat \<Rightarrow> rat \<Rightarrow> jsnum"
  stdin_data :: "string option"

type_synonym 'a io = "world \<Rightarrow> 'a outcome \<times> world"

definition ret :: "'a \<Rightarrow> 'a io" where
  "ret x = (\<lambda>w. (Ok x, w))"

definition throw :: "exn \<Rightarrow> 'a io" where
  "throw e = (\<lambda>w. (Throw e, w))"

definition seq :: "'a io \<Rightarrow> ('a \<Rightarrow> 'b io) \<Rightarrow> 'b io" where
  "seq m f = (\<lambda>w. case m w of
     (Ok x, w') \<Rightarrow> f x w'
   | (Throw e, w') \<Rightarrow> (Throw e, w')
   | (Pending, w') \<Rightarrow> (Pending, w'))"

text \<open>\<open>try { m } catch { h }\<close>: only a throw reaches the handler.\<close>

definition try_catch :: "'a io \<Rightarrow> 'a io \<Rightarrow> 'a io" where
  "try_catch m h = (\<lambda>w. case m w of
     (Throw e, w') \<Rightarrow> h w'
   | r \<Rightarrow> r)"

definition emit :: "event \<Rightarrow> world \<Rightarrow> world" where
  "emit e w = w\<lparr>trace := trace w @ [e]\<rparr>"

definition Date_now :: "int io" where
  "Date_now = (\<lambda>w. (Ok (clock w (trace w) (ticks w)), w\<lparr>ticks := Suc (ticks w)\<rparr>))"

text \<open>Property read \<open>v.k\<close>, for the property names the program reads
  (\<open>access_token\<close>, \<open>refresh_token\<close>, \<open>expires_at\<close>, \<open>expires_in\<close>): a TypeError on
  \<open>null\<close> and \<open>undefined\<close>, \<open>undefined\<close> on a primitive, an array or an object
  without the property.\<close>

fun field :: "jsval \<Rightarrow> string \<Rightarrow> jsval" where
  "field (JObj ms) k = (case map_of ms k of None \<Rightarrow> JUndefined | Some v \<Rightarrow> v)"
| "field v k = JUndefined"

definition get_prop :: "jsval \<Rightarrow> string \<Rightarrow> jsval io" where
  "get_prop v k = (if v = JUndefined \<or> v = JNull then throw TypeError else ret (field v k))"

text \<open>
  ToPrimitive throws a TypeError on an object that has no callable \<open>toString\<close> or
  \<open>valueOf\<close> yielding a primitive. The values here come from JSON, where no property is
  callable: an object fails exactly when it has an own property \<open>toString\<close> (it hides the
  inherited one; the inherited \<open>valueOf\<close> returns the object itself), and an array fails
  when the conversion to string of one of its elements does.
\<close>

fun unprimitive :: "jsval \<Rightarrow> bool" where
  "unprimitive (JObj ms) = (map_of ms ''toString'' \<noteq> None)"
| "unprimitive (JArr xs) = list_ex unprimitive xs"
| "unprimitive v = False"

text \<open>ToNumber of a value that converts to a primitive; \<open>co\<close> is the oracle for strings
  and arrays. An object converts to the string \<open>[object Object]\<close>, which is no number.\<close>

fun to_number :: "(jsval \<Rightarrow> jsnum) \<Rightarrow> jsval \<Rightarrow> jsnum" where
  "to_number co (JNum n) = n"
| "to_number co JUndefined = NaN"
| "to_number co JNull = Fin 0"
| "to_number co (JBool b) = Fin (if b then 1 else 0)"
| "to_number co (JObj ms) = NaN"
| "to_number co v = co v"

definition ToNumber :: "jsval \<Rightarrow> jsnum io" where
  "ToNumber v =
     (if unprimitive v then throw TypeError else (\<lambda>w. (Ok (to_number (coerce w) v), w)))"

subsection \<open>File system\<close>

definition fs_readFile :: "path \<Rightarrow> string io" where
  "fs_readFile p = (\<lambda>w.
     let w' = emit (EvReadFile p) w in
     if fs_fault w (trace w) OpReadFile then (Throw (FsError OpReadFile), w')
     else case files w p of
       None \<Rightarrow> (Throw (FsError OpReadFile), w')
     | Some s \<Rightarrow> (Ok s, w'))"

text \<open>\<open>fs.mkdir(p, { recursive: true })\<close> creates \<open>p\<close> and every missing ancestor, and
  succeeds when they exist already.\<close>

definition fs_mkdir_recursive :: "path \<Rightarrow> unit io" where
  "fs_mkdir_recursive p = (\<lambda>w.
     let w' = emit (EvMkdir p) w in
     if fs_fault w (trace w) OpMkdir then (Throw (FsError OpMkdir), w')
     else (Ok (), w'\<lparr>dirs := dirs w \<union> set (prefixes p)\<rparr>))"

text \<open>\<open>fs.writeFile\<close> replaces the whole contents; it fails when the directory of the
  file does not exist.\<close>

definition fs_writeFile :: "path \<Rightarrow> string \<Rightarrow> unit io" where
  "fs_writeFile p s = (\<lambda>w.
     let w' = emit (EvWriteFile p s) w in
     if fs_fault w (trace w) OpWriteFile \<or> butlast p \<notin> dirs w
     then (Throw (FsError OpWriteFile), w')
     else (Ok (), w'\<lparr>files := (files w)(p \<mapsto> s)\<rparr>))"

definition fs_chmod :: "path \<Rightarrow> nat \<Rightarrow> unit io" where
  "fs_chmod p m = (\<lambda>w.
     let w' = emit (EvChmod p m) w in
     if fs_fault w (trace w) OpChmod \<or> files w p = None
     then (Throw (FsError OpChmod), w')
     else (Ok (), w'\<lparr>modes := (modes w)(p \<mapsto> m)\<rparr>))"

definition fs_unlink :: "path \<Rightarrow> unit io" where
  "fs_unlink p = (\<lambda>w.
     let w' = emit (EvUnlink p) w in
     if fs_fault w (trace w) OpUnlink \<or> files w p = None
     then (Throw (FsError OpUnlink), w')
     else (Ok (), w'\<lparr>files := (files w)(p := None), modes := (modes w)(p := None)\<rparr>))"

subsection \<open>Network\<close>

text \<open>\<open>await fetch(url, init)\<close>: the request leaves, then the response arrives or the
  promise is rejected. \<open>await response.json()\<close>: the body arrives and is decoded, or the
  promise is rejected.\<close>

definition fetch :: "request \<Rightarrow> response io" where
  "fetch req = (\<lambda>w.
     let w' = emit (EvFetch req) w in
     case net w (trace w) req of
       Inl e \<Rightarrow> (Throw e, w')
     | Inr r \<Rightarrow> (Ok r, emit EvResponse w'))"

definition response_json :: "response \<Rightarrow> jsval io" where
  "response_json r = (\<lambda>w. case json r of Inl e \<Rightarrow> (Throw e, w) | Inr v \<Rightarrow> (Ok v, emit EvBody w))"

section \<open>JSON.stringify\<close>

text \<open>The digit for a value below 16.\<close>

definition digit_char :: "nat \<Rightarrow> char" where
  "digit_char n = ''0123456789abcdef'' ! min n 15"

fun digits :: "nat \<Rightarrow> string" where
  "digits n = (if n < 10 then [digit_char n] else digits (n div 10) @ [digit_char (n mod 10)])"

declare digits.simps [simp del]

definition int_text :: "int \<Rightarrow> string" where
  "int_text i = (if i < 0 then CHR ''-'' # digits (nat (- i)) else digits (nat i))"

definition number_text :: "(rat \<Rightarrow> string) \<Rightarrow> jsnum \<Rightarrow> string" where
  "number_text nt n = (case n of
       NaN \<Rightarrow> ''null''
     | Fin q \<Rightarrow>
         if safe_int q then int_text \<lfloor>q\<rfloor> else nt q)"

text \<open>QuoteJSONString, on 8-bit characters.\<close>

definition quote_char :: "char \<Rightarrow> string" where
  "quote_char c =
     (if c = CHR 0x22 then [CHR 0x5C, CHR 0x22]
      else if c = CHR 0x5C then [CHR 0x5C, CHR 0x5C]
      else if c = CHR 0x08 then [CHR 0x5C, CHR ''b'']
      else if c = CHR 0x0C then [CHR 0x5C, CHR ''f'']
      else if c = CHR 0x0A then [CHR 0x5C, CHR ''n'']
      else if c = CHR 0x0D then [CHR 0x5C, CHR ''r'']
      else if c = CHR 0x09 then [CHR 0x5C, CHR ''t'']
      else if (of_char c :: nat) < 32
        then [CHR 0x5C, CHR ''u'', CHR ''0'', CHR ''0'',
              digit_char (of_char c div 16), digit_char (of_char c mod 16)]
      else [c])"

definition quote :: "string \<Rightarrow> string" where
  "quote s = CHR 0x22 # concat (map quote_char s) @ [CHR 0x22]"

fun join :: "string \<Rightarrow> string list \<Rightarrow> string" where
  "join sep [] = []"
| "join sep [x] = x"
| "join sep (x # y # ys) = x @ sep @ join sep (y # ys)"

text \<open>The layout of an object or array: \<open>gap\<close> is the indentation unit (empty for the
  compact form), \<open>ind\<close> the indentation of the enclosing level.\<close>

definition wrap :: "string \<Rightarrow> string \<Rightarrow> string \<Rightarrow> string \<Rightarrow> string list \<Rightarrow> string" where
  "wrap l r gap ind parts =
     (if parts = [] then l @ r
      else if gap = [] then l @ join '','' parts @ r
      else l @ [CHR 0x0A] @ ind @ gap @ join ('','' @ [CHR 0x0A] @ ind @ gap) parts
             @ [CHR 0x0A] @ ind @ r)"

fun ser :: "(rat \<Rightarrow> string) \<Rightarrow> string \<Rightarrow> string \<Rightarrow> jsval \<Rightarrow> string option"
  and ser_elems :: "(rat \<Rightarrow> string) \<Rightarrow> string \<Rightarrow> string \<Rightarrow> jsval list \<Rightarrow> string list"
  and ser_members ::
    "(rat \<Rightarrow> string) \<Rightarrow> string \<Rightarrow> string \<Rightarrow> (string \<times> jsval) list \<Rightarrow> string list"
where
  "ser nt gap ind JUndefined = None"
| "ser nt gap ind JNull = Some ''null''"
| "ser nt gap ind (JBool b) = Some (if b then ''true'' else ''false'')"
| "ser nt gap ind (JNum n) = Some (number_text nt n)"
| "ser nt gap ind (JStr s) = Some (quote s)"
| "ser nt gap ind (JArr xs) = Some (wrap ''['' '']'' gap ind (ser_elems nt gap (ind @ gap) xs))"
| "ser nt gap ind (JObj ms) = Some (wrap ''{'' ''}'' gap ind (ser_members nt gap (ind @ gap) ms))"
| "ser_elems nt gap ind [] = []"
| "ser_elems nt gap ind (x # xs) =
     (case ser nt gap ind x of None \<Rightarrow> ''null'' | Some s \<Rightarrow> s) # ser_elems nt gap ind xs"
| "ser_members nt gap ind [] = []"
| "ser_members nt gap ind ((k, v) # ms) =
     (case ser nt gap ind v of
        None \<Rightarrow> ser_members nt gap ind ms
      | Some s \<Rightarrow>
          (quote k @ '':'' @ (if gap = [] then [] else '' '') @ s) # ser_members nt gap ind ms)"

text \<open>\<open>JSON.stringify(v)\<close> and \<open>JSON.stringify(v, null, 2)\<close>; the result is
  \<open>undefined\<close> (here \<open>None\<close>) when \<open>v\<close> is.\<close>

definition JSON_stringify :: "jsval \<Rightarrow> string option io" where
  "JSON_stringify v = (\<lambda>w. (Ok (ser (num_text w) [] [] v), w))"

definition JSON_stringify_2 :: "jsval \<Rightarrow> string option io" where
  "JSON_stringify_2 v = (\<lambda>w. (Ok (ser (num_text w) ''  '' [] v), w))"

section \<open>JSON.parse\<close>

text \<open>
  The parser of the platform, on 8-bit characters: a lexer for the JSON tokens and a
  pushdown automaton over the tokens. A \<open>\u\<close> escape that denotes a code unit above
  \<open>0xFF\<close> has no counterpart in an 8-bit string; the model rejects such a text, and says
  nothing faithful about it. A number is kept as the exact value of its literal, where the
  platform rounds to the nearest double, and the members of an object stay in the order of
  the text, where the platform lists integer-like keys first: the model is faithful on
  texts whose numbers are doubles and whose keys are not integers, as the credential file
  the program writes is.
\<close>

datatype token =
    TLBrace | TRBrace | TLBracket | TRBracket | TColon | TComma
  | TString string | TNumber rat | TTrue | TFalse | TNull

definition is_ws :: "char \<Rightarrow> bool" where
  "is_ws c = (c = CHR 0x20 \<or> c = CHR 0x09 \<or> c = CHR 0x0A \<or> c = CHR 0x0D)"

definition char_code :: "char \<Rightarrow> nat" where
  "char_code c = of_char c"

definition is_digit :: "char \<Rightarrow> bool" where
  "is_digit c = (48 \<le> char_code c \<and> char_code c \<le> 57)"

definition digit_val :: "char \<Rightarrow> nat" where
  "digit_val c = char_code c - 48"

definition hex_val :: "char \<Rightarrow> nat option" where
  "hex_val c =
     (if 48 \<le> char_code c \<and> char_code c \<le> 57 then Some (char_code c - 48)
      else if 97 \<le> char_code c \<and> char_code c \<le> 102 then Some (char_code c - 97 + 10)
      else if 65 \<le> char_code c \<and> char_code c \<le> 70 then Some (char_code c - 65 + 10)
      else None)"

definition hex4 :: "char \<Rightarrow> char \<Rightarrow> char \<Rightarrow> char \<Rightarrow> nat option" where
  "hex4 a b c d = (case (hex_val a, hex_val b, hex_val c, hex_val d) of
       (Some x, Some y, Some z, Some u) \<Rightarrow> Some (((x * 16 + y) * 16 + z) * 16 + u)
     | _ \<Rightarrow> None)"

definition unescape :: "char \<Rightarrow> char option" where
  "unescape e =
     (if e = CHR 0x22 then Some (CHR 0x22)
      else if e = CHR 0x5C then Some (CHR 0x5C)
      else if e = CHR ''/'' then Some (CHR ''/'')
      else if e = CHR ''b'' then Some (CHR 0x08)
      else if e = CHR ''f'' then Some (CHR 0x0C)
      else if e = CHR ''n'' then Some (CHR 0x0A)
      else if e = CHR ''r'' then Some (CHR 0x0D)
      else if e = CHR ''t'' then Some (CHR 0x09)
      else None)"

text \<open>The characters of a string literal after its opening quote, and what follows the
  closing quote.\<close>

fun scan_string :: "string \<Rightarrow> string \<Rightarrow> (string \<times> string) option" where
  "scan_string acc [] = None"
| "scan_string acc (c # cs) =
     (if c = CHR 0x22 then Some (rev acc, cs)
      else if c = CHR 0x5C then
        (case cs of
           [] \<Rightarrow> None
         | e # r \<Rightarrow>
             if e = CHR ''u'' then
               (case r of
                  h1 # h2 # h3 # h4 # r' \<Rightarrow>
                    (case hex4 h1 h2 h3 h4 of
                       None \<Rightarrow> None
                     | Some n \<Rightarrow> if n < 256 then scan_string (char_of n # acc) r' else None)
                | _ \<Rightarrow> None)
             else
               (case unescape e of
                  None \<Rightarrow> None
                | Some x \<Rightarrow> scan_string (x # acc) r))
      else if char_code c < 32 then None
      else scan_string (c # acc) cs)"

definition digits_val :: "string \<Rightarrow> nat" where
  "digits_val ds = foldl (\<lambda>a d. 10 * a + digit_val d) 0 ds"

text \<open>The fraction of a number, if there is one: its digits and the rest.\<close>

definition scan_frac :: "string \<Rightarrow> (string \<times> string) option" where
  "scan_frac s = (case s of
       c # r \<Rightarrow>
         if c = CHR ''.'' then
           (if takeWhile is_digit r = [] then None
            else Some (takeWhile is_digit r, dropWhile is_digit r))
         else Some ([], s)
     | [] \<Rightarrow> Some ([], s))"

text \<open>The exponent of a number, if there is one: its value and the rest.\<close>

definition scan_exp :: "string \<Rightarrow> (int \<times> string) option" where
  "scan_exp s = (case s of
       c # r \<Rightarrow>
         if c = CHR ''e'' \<or> c = CHR ''E'' then
           (let (neg, r') = (case r of
                   d # r'' \<Rightarrow>
                     if d = CHR ''-'' then (True, r'')
                     else if d = CHR ''+'' then (False, r'')
                     else (False, r)
                 | [] \<Rightarrow> (False, r))
            in if takeWhile is_digit r' = [] then None
               else Some ((if neg then - 1 else 1) * int (digits_val (takeWhile is_digit r')),
                          dropWhile is_digit r'))
         else Some (0, s)
     | [] \<Rightarrow> Some (0, s))"

definition pow10 :: "int \<Rightarrow> rat" where
  "pow10 e = (if 0 \<le> e then 10 ^ nat e else 1 / 10 ^ nat (- e))"

text \<open>A number with its sign removed: integer part without a leading zero, then fraction
  and exponent.\<close>

definition scan_unsigned :: "string \<Rightarrow> (rat \<times> string) option" where
  "scan_unsigned s =
     (let ip = takeWhile is_digit s in
      if ip = [] \<or> (1 < length ip \<and> hd ip = CHR ''0'') then None
      else case scan_frac (dropWhile is_digit s) of
        None \<Rightarrow> None
      | Some (fp, s') \<Rightarrow>
          (case scan_exp s' of
             None \<Rightarrow> None
           | Some (e, s'') \<Rightarrow>
               Some ((of_int (int (digits_val ip)) + of_int (int (digits_val fp)) / 10 ^ length fp)
                       * pow10 e,
                     s'')))"

definition scan_number :: "string \<Rightarrow> (rat \<times> string) option" where
  "scan_number s = (case s of
       c # r \<Rightarrow>
         if c = CHR ''-'' then map_option (\<lambda>(q, t). (- q, t)) (scan_unsigned r)
         else scan_unsigned s
     | [] \<Rightarrow> None)"

lemma scan_string_shorter: "scan_string acc s = Some (v, r) \<Longrightarrow> length r < length s"
proof (induction acc s rule: scan_string.induct)
  case (1 acc)
  then show ?case by simp
next
  case (2 acc c cs)
  show ?case
  proof (cases "c = CHR 0x22")
    case True
    with "2.prems" show ?thesis by simp
  next
    case nq: False
    show ?thesis
    proof (cases "c = CHR 0x5C")
      case False
      with nq "2.prems" "2.IH"(3) show ?thesis
        by (auto split: if_splits)
    next
      case bs: True
      show ?thesis
      proof (cases cs)
        case Nil
        with nq bs "2.prems" show ?thesis by simp
      next
        case (Cons e t)
        show ?thesis
        proof (cases "e = CHR ''u''")
          case False
          with nq bs Cons "2.prems" "2.IH"(2) [OF nq bs Cons False] show ?thesis
            by (auto split: option.splits)
        next
          case u: True
          from nq bs Cons u "2.prems" obtain h1 h2 h3 h4 t' n where
            t: "t = h1 # h2 # h3 # h4 # t'" and h: "hex4 h1 h2 h3 h4 = Some n" and n: "n < 256"
            and rec: "scan_string (char_of n # acc) t' = Some (v, r)"
            by (auto split: list.splits option.splits if_splits)
          have "length r < length t'"
            using "2.IH"(1) [OF nq bs Cons u t refl refl refl h n rec] .
          with Cons t show ?thesis by simp
        qed
      qed
    qed
  qed
qed

lemma scan_frac_shorter: "scan_frac s = Some (v, r) \<Longrightarrow> length r \<le> length s"
  by (auto simp: scan_frac_def le_SucI length_dropWhile_le split: list.splits if_splits)

lemma scan_exp_shorter: "scan_exp s = Some (v, r) \<Longrightarrow> length r \<le> length s"
  by (auto simp: scan_exp_def le_SucI length_dropWhile_le Let_def
           intro: order_trans [OF length_dropWhile_le]
           split: list.splits if_splits prod.splits)

lemma dropWhile_shorter: "takeWhile P s \<noteq> [] \<Longrightarrow> length (dropWhile P s) < length s"
  by (cases s) (auto simp: less_Suc_eq_le length_dropWhile_le split: if_splits)

lemma scan_unsigned_shorter: "scan_unsigned s = Some (v, r) \<Longrightarrow> length r < length s"
proof -
  assume a: "scan_unsigned s = Some (v, r)"
  then have ne: "takeWhile is_digit s \<noteq> []"
    by (auto simp: scan_unsigned_def Let_def split: if_splits)
  from a obtain fp s' e where f: "scan_frac (dropWhile is_digit s) = Some (fp, s')"
    and x: "scan_exp s' = Some (e, r)"
    by (auto simp: scan_unsigned_def Let_def split: if_splits option.splits)
  have "length r \<le> length s'" using x by (rule scan_exp_shorter)
  also have "\<dots> \<le> length (dropWhile is_digit s)" using f by (rule scan_frac_shorter)
  also have "\<dots> < length s" using ne by (rule dropWhile_shorter)
  finally show ?thesis .
qed

lemma scan_number_shorter: "scan_number s = Some (v, r) \<Longrightarrow> length r < length s"
  by (auto simp: scan_number_def less_SucI dest!: scan_unsigned_shorter
           split: list.splits if_splits)

function lex :: "string \<Rightarrow> token list option" where
  "lex [] = Some []"
| "lex (c # cs) =
     (if is_ws c then lex cs
      else if c = CHR ''{'' then map_option (Cons TLBrace) (lex cs)
      else if c = CHR ''}'' then map_option (Cons TRBrace) (lex cs)
      else if c = CHR ''['' then map_option (Cons TLBracket) (lex cs)
      else if c = CHR '']'' then map_option (Cons TRBracket) (lex cs)
      else if c = CHR '':'' then map_option (Cons TColon) (lex cs)
      else if c = CHR '','' then map_option (Cons TComma) (lex cs)
      else if c = CHR 0x22 then
        (case scan_string [] cs of
           None \<Rightarrow> None
         | Some (s, r) \<Rightarrow> map_option (Cons (TString s)) (lex r))
      else if c = CHR ''t'' then
        (if take 3 cs = ''rue'' then map_option (Cons TTrue) (lex (drop 3 cs)) else None)
      else if c = CHR ''f'' then
        (if take 4 cs = ''alse'' then map_option (Cons TFalse) (lex (drop 4 cs)) else None)
      else if c = CHR ''n'' then
        (if take 3 cs = ''ull'' then map_option (Cons TNull) (lex (drop 3 cs)) else None)
      else if c = CHR ''-'' \<or> is_digit c then
        (case scan_number (c # cs) of
           None \<Rightarrow> None
         | Some (q, r) \<Rightarrow> map_option (Cons (TNumber q)) (lex r))
      else None)"
  by pat_completeness auto
termination
proof (relation "measure length", goal_cases)
  case (9 c cs x2 s r)
  then have "scan_string [] cs = Some (s, r)" by simp
  then have "length r < length cs" by (rule scan_string_shorter)
  then show ?case by simp
next
  case (13 c cs x2 q r)
  then have "scan_number (c # cs) = Some (q, r)" by simp
  then have "length r < length (c # cs)" by (rule scan_number_shorter)
  then show ?case by simp
qed simp_all

declare lex.simps [simp del]

datatype frame = InArr "jsval list" | InObj "(string \<times> jsval) list" string

datatype pstate =
    WantValue
  | ArrOpen
  | ObjOpen
  | WantKey "(string \<times> jsval) list"
  | WantColon "(string \<times> jsval) list" string
  | Have jsval

text \<open>Defining a property: a repeated key keeps its place and takes the later value.\<close>

fun put :: "(string \<times> jsval) list \<Rightarrow> string \<Rightarrow> jsval \<Rightarrow> (string \<times> jsval) list" where
  "put [] k v = [(k, v)]"
| "put ((k', v') # ms) k v = (if k' = k then (k', v) # ms else (k', v') # put ms k v)"

definition value_start :: "token \<Rightarrow> frame list \<Rightarrow> (pstate \<times> frame list) option" where
  "value_start t st = (case t of
       TLBracket \<Rightarrow> Some (ArrOpen, st)
     | TLBrace \<Rightarrow> Some (ObjOpen, st)
     | TString s \<Rightarrow> Some (Have (JStr s), st)
     | TNumber q \<Rightarrow> Some (Have (JNum (Fin q)), st)
     | TTrue \<Rightarrow> Some (Have (JBool True), st)
     | TFalse \<Rightarrow> Some (Have (JBool False), st)
     | TNull \<Rightarrow> Some (Have JNull, st)
     | _ \<Rightarrow> None)"

fun step :: "pstate \<Rightarrow> frame list \<Rightarrow> token \<Rightarrow> (pstate \<times> frame list) option" where
  "step WantValue st t = value_start t st"
| "step ArrOpen st t =
     (if t = TRBracket then Some (Have (JArr []), st) else value_start t (InArr [] # st))"
| "step ObjOpen st t = (case t of
       TRBrace \<Rightarrow> Some (Have (JObj []), st)
     | TString k \<Rightarrow> Some (WantColon [] k, st)
     | _ \<Rightarrow> None)"
| "step (WantKey ms) st t = (case t of TString k \<Rightarrow> Some (WantColon ms k, st) | _ \<Rightarrow> None)"
| "step (WantColon ms k) st t = (if t = TColon then Some (WantValue, InObj ms k # st) else None)"
| "step (Have v) [] t = None"
| "step (Have v) (InArr xs # st) t = (case t of
       TComma \<Rightarrow> Some (WantValue, InArr (xs @ [v]) # st)
     | TRBracket \<Rightarrow> Some (Have (JArr (xs @ [v])), st)
     | _ \<Rightarrow> None)"
| "step (Have v) (InObj ms k # st) t = (case t of
       TComma \<Rightarrow> Some (WantKey (put ms k v), st)
     | TRBrace \<Rightarrow> Some (Have (JObj (put ms k v)), st)
     | _ \<Rightarrow> None)"

fun run :: "pstate \<Rightarrow> frame list \<Rightarrow> token list \<Rightarrow> jsval option" where
  "run s st (t # ts) = (case step s st t of None \<Rightarrow> None | Some (s', st') \<Rightarrow> run s' st' ts)"
| "run (Have v) [] [] = Some v"
| "run s st [] = None"

text \<open>\<open>JSON.parse\<close>: \<open>None\<close> stands for the SyntaxError it throws.\<close>

definition JSON_parse :: "string \<Rightarrow> jsval option" where
  "JSON_parse s = (case lex s of None \<Rightarrow> None | Some ts \<Rightarrow> run WantValue [] ts)"

section \<open>The credential manager\<close>

definition CLIENT_ID :: string where
  "CLIENT_ID = ''9d1c250a-e61b-44d9-88ed-5944d1962f5e''"

text \<open>\<open>join(homedir(), '.titan', 'credentials', 'claude.json')\<close>, as path components.\<close>

definition CREDS_PATH :: "world \<Rightarrow> path" where
  "CREDS_PATH w = home w @ [''.titan'', ''credentials'', ''claude.json'']"

definition dirname :: "path \<Rightarrow> path" where
  "dirname p = butlast p"

definition TOKEN_URL :: string where
  "TOKEN_URL = ''https://console.anthropic.com/v1/oauth/token''"

definition REDIRECT_URI :: string where
  "REDIRECT_URI = ''https://console.anthropic.com/oauth/code/callback''"

text \<open>The interface \<open>Credentials\<close>. The fields are declared \<open>string\<close>, \<open>string\<close> and
  \<open>number\<close>, but the two tokens are copied unchecked from a response of type \<open>any\<close>.\<close>

record Credentials =
  access_token :: jsval
  refresh_token :: jsval
  expires_at :: jsnum

definition creds_obj :: "Credentials \<Rightarrow> jsval" where
  "creds_obj c = JObj [(''access_token'', access_token c),
                       (''refresh_token'', refresh_token c),
                       (''expires_at'', JNum (expires_at c))]"

subsection \<open>Token exchanger\<close>

text \<open>\<open>s.split(c)\<close> for a one-character separator: never an empty array.\<close>

fun split_on :: "char \<Rightarrow> string \<Rightarrow> string list" where
  "split_on c [] = [[]]"
| "split_on c (x # xs) =
     (if x = c then [] # split_on c xs
      else case split_on c xs of
        [] \<Rightarrow> [[x]]
      | y # ys \<Rightarrow> (x # y) # ys)"

text \<open>An element of an array destructuring: \<open>undefined\<close> past the end.\<close>

definition element :: "string list \<Rightarrow> nat \<Rightarrow> jsval" where
  "element xs i = (if i < length xs then JStr (xs ! i) else JUndefined)"

definition token_request :: "string option \<Rightarrow> request" where
  "token_request b =
     \<lparr>url = TOKEN_URL, http_method = ''POST'',
      headers = [(''Content-Type'', ''application/json'')], body = b\<rparr>"

text \<open>The object literal of lines 70 to 77, after \<open>const [authCode, state] = code.split('#')\<close>.\<close>

definition code_request_body :: "string \<Rightarrow> string \<Rightarrow> jsval" where
  "code_request_body code verifier =
     (let parts = split_on CHR ''#'' code;
          authCode = element parts 0;
          state = element parts 1
      in JObj [(''code'', authCode),
               (''state'', state),
               (''grant_type'', JStr ''authorization_code''),
               (''client_id'', JStr CLIENT_ID),
               (''redirect_uri'', JStr REDIRECT_URI),
               (''code_verifier'', JStr verifier)])"

definition refresh_request_body :: "jsval \<Rightarrow> jsval" where
  "refresh_request_body refreshToken =
     JObj [(''grant_type'', JStr ''refresh_token''),
           (''refresh_token'', refreshToken),
           (''client_id'', JStr CLIENT_ID)]"

definition js_mul :: "jsnum \<Rightarrow> jsnum \<Rightarrow> jsnum io" where
  "js_mul a b = (\<lambda>w. (Ok (num_mul (fl_mul w) a b), w))"

definition js_add :: "jsnum \<Rightarrow> jsnum \<Rightarrow> jsnum io" where
  "js_add a b = (\<lambda>w. (Ok (num_add (fl_add w) a b), w))"

text \<open>The object literal both exchanges return (lines 86 to 90 and 111 to 115), evaluated
  left to right: in \<open>Date.now() + (data.expires_in * 1000)\<close> the clock is read first, then
  \<open>data.expires_in\<close> is read and converted, then the product and the sum are taken.\<close>

definition credentials_of :: "jsval \<Rightarrow> Credentials io" where
  "credentials_of data =
     seq (get_prop data ''access_token'') (\<lambda>a.
     seq (get_prop data ''refresh_token'') (\<lambda>r.
     seq Date_now (\<lambda>t.
     seq (get_prop data ''expires_in'') (\<lambda>e.
     seq (ToNumber e) (\<lambda>n.
     seq (js_mul n (Fin 1000)) (\<lambda>lifetime.
     seq (js_add (Fin (of_int t)) lifetime) (\<lambda>expiry.
     ret \<lparr>access_token = a, refresh_token = r, expires_at = expiry\<rparr>)))))))"

definition exchangeCodeForTokens :: "string \<Rightarrow> string \<Rightarrow> Credentials io" where
  "exchangeCodeForTokens code verifier =
     seq (JSON_stringify (code_request_body code verifier)) (\<lambda>b.
     seq (fetch (token_request b)) (\<lambda>response.
     if \<not> ok response
     then throw (Error (''Token exchange failed: '' @ statusText response))
     else seq (response_json response) credentials_of))"

definition refreshAccessToken :: "jsval \<Rightarrow> Credentials io" where
  "refreshAccessToken refreshToken =
     seq (JSON_stringify (refresh_request_body refreshToken)) (\<lambda>b.
     seq (fetch (token_request b)) (\<lambda>response.
     if \<not> ok response
     then throw (Error (''Token refresh failed: '' @ statusText response))
     else seq (response_json response) credentials_of))"

subsection \<open>Credential store\<close>

text \<open>\<open>0o600\<close> is 384.\<close>

definition saveCredentials :: "Credentials \<Rightarrow> unit io" where
  "saveCredentials creds = (\<lambda>w.
     seq (fs_mkdir_recursive (dirname (CREDS_PATH w))) (\<lambda>_.
     seq (JSON_stringify_2 (creds_obj creds)) (\<lambda>text.
     case text of
       None \<Rightarrow> throw TypeError
     | Some s \<Rightarrow>
         seq (fs_writeFile (CREDS_PATH w) s) (\<lambda>_.
         try_catch (fs_chmod (CREDS_PATH w) 384) (ret ())))) w)"

definition JSON_parse_or_throw :: "string \<Rightarrow> jsval io" where
  "JSON_parse_or_throw s = (case JSON_parse s of None \<Rightarrow> throw SyntaxError | Some v \<Rightarrow> ret v)"

definition loadCredentials :: "jsval io" where
  "loadCredentials = (\<lambda>w.
     try_catch (seq (fs_readFile (CREDS_PATH w)) JSON_parse_or_throw) (ret JNull) w)"

definition clearCredentials :: "unit io" where
  "clearCredentials = (\<lambda>w. try_catch (fs_unlink (CREDS_PATH w)) (ret ()) w)"

subsection \<open>High-level accessor\<close>

definition refresh_and_save :: "jsval \<Rightarrow> jsval io" where
  "refresh_and_save creds =
     try_catch
       (seq (get_prop creds ''refresh_token'') (\<lambda>rt.
        seq (refreshAccessToken rt) (\<lambda>newCreds.
        seq (saveCredentials newCreds) (\<lambda>_.
        ret (access_token newCreds)))))
       (ret JNull)"

definition getClaudeAccessToken :: "jsval io" where
  "getClaudeAccessToken =
     seq loadCredentials (\<lambda>creds.
     if \<not> truthy creds then ret JNull
     else
       seq (get_prop creds ''expires_at'') (\<lambda>e.
       seq Date_now (\<lambda>t.
       seq (ToNumber e) (\<lambda>n.
       if num_gt n (Fin (of_int t + 60000)) then get_prop creds ''access_token''
       else refresh_and_save creds))))"

definition isAuthenticated :: "bool io" where
  "isAuthenticated = seq getClaudeAccessToken (\<lambda>token. ret (token \<noteq> JNull))"

section \<open>Platform functions of the PKCE generator\<close>

text \<open>A byte is a natural number below 256.\<close>

type_synonym byte = nat

text \<open>\<open>for (t = i; t < j; t++) s = f t s\<close>.\<close>

function loop :: "nat \<Rightarrow> nat \<Rightarrow> (nat \<Rightarrow> 'a \<Rightarrow> 'a) \<Rightarrow> 'a \<Rightarrow> 'a" where
  "loop i j f s = (if i < j then loop (i + 1) j f (f i s) else s)"
  by pat_completeness auto
termination
  by (relation "measure (\<lambda>(i, j, f, s). j - i)") auto

declare loop.simps [simp del]

subsection \<open>The encoding \<open>base64url\<close>\<close>

definition b64url_alphabet :: string where
  "b64url_alphabet = ''ABCDEFGHIJKLMNOPQRSTUVWXYZabcdefghijklmnopqrstuvwxyz0123456789-_''"

definition b64char :: "nat \<Rightarrow> char" where
  "b64char n = b64url_alphabet ! (n mod 64)"

text \<open>\<open>buffer.toString('base64url')\<close>: three bytes give four characters, a rest of one
  or two bytes gives two or three, and nothing is padded.\<close>

fun base64url :: "byte list \<Rightarrow> string" where
  "base64url (a # b # c # rest) =
     [b64char (a div 4), b64char (a mod 4 * 16 + b div 16),
      b64char (b mod 16 * 4 + c div 64), b64char (c mod 64)] @ base64url rest"
| "base64url [a, b] =
     [b64char (a div 4), b64char (a mod 4 * 16 + b div 16), b64char (b mod 16 * 4)]"
| "base64url [a] = [b64char (a div 4), b64char (a mod 4 * 16)]"
| "base64url [] = []"

subsection \<open>The text bytes of a string\<close>

text \<open>UTF-8 of a string of 8-bit characters, read as code points.\<close>

definition utf8_char :: "char \<Rightarrow> byte list" where
  "utf8_char c =
     (if char_code c < 128 then [char_code c]
      else [192 + char_code c div 64, 128 + char_code c mod 64])"

definition utf8 :: "string \<Rightarrow> byte list" where
  "utf8 s = concat (map utf8_char s)"

subsection \<open>SHA-256\<close>

text \<open>The hash function of FIPS 180-4 on 32-bit words held in natural numbers, with the
  reduction modulo \<open>2^32\<close> written out.\<close>

definition w32 :: "nat \<Rightarrow> nat" where
  "w32 x = x mod 4294967296"

definition rotr :: "nat \<Rightarrow> nat \<Rightarrow> nat" where
  "rotr n x = x div 2 ^ n + (x mod 2 ^ n) * 2 ^ (32 - n)"

definition Ch :: "nat \<Rightarrow> nat \<Rightarrow> nat \<Rightarrow> nat" where
  "Ch x y z = (x AND y) XOR ((4294967295 - x) AND z)"

definition Maj :: "nat \<Rightarrow> nat \<Rightarrow> nat \<Rightarrow> nat" where
  "Maj x y z = (x AND y) XOR (x AND z) XOR (y AND z)"

definition Sigma0 :: "nat \<Rightarrow> nat" where
  "Sigma0 x = rotr 2 x XOR rotr 13 x XOR rotr 22 x"

definition Sigma1 :: "nat \<Rightarrow> nat" where
  "Sigma1 x = rotr 6 x XOR rotr 11 x XOR rotr 25 x"

definition sigma0 :: "nat \<Rightarrow> nat" where
  "sigma0 x = rotr 7 x XOR rotr 18 x XOR x div 2 ^ 3"

definition sigma1 :: "nat \<Rightarrow> nat" where
  "sigma1 x = rotr 17 x XOR rotr 19 x XOR x div 2 ^ 10"

definition K256 :: "nat list" where
  "K256 =
     [1116352408, 1899447441, 3049323471, 3921009573, 961987163, 1508970993,
      2453635748, 2870763221, 3624381080, 310598401, 607225278, 1426881987,
      1925078388, 2162078206, 2614888103, 3248222580, 3835390401, 4022224774,
      264347078, 604807628, 770255983, 1249150122, 1555081692, 1996064986,
      2554220882, 2821834349, 2952996808, 3210313671, 3336571891, 3584528711,
      113926993, 338241895, 666307205, 773529912, 1294757372, 1396182291,
      1695183700, 1986661051, 2177026350, 2456956037, 2730485921, 2820302411,
      3259730800, 3345764771, 3516065817, 3600352804, 4094571909, 275423344,
      430227734, 506948616, 659060556, 883997877, 958139571, 1322822218,
      1537002063, 1747873779, 1955562222, 2024104815, 2227730452, 2361852424,
      2428436474, 2756734187, 3204031479, 3329325298]"

definition H256 :: "nat list" where
  "H256 =
     [1779033703, 3144134277, 1013904242, 2773480762,
      1359893119, 2600822924, 528734635, 1541459225]"

definition zeros :: "nat \<Rightarrow> byte list" where
  "zeros n = loop 0 n (\<lambda>_ bs. 0 # bs) []"

text \<open>The message, the byte 128, zeros up to 56 modulo 64, and the length in bits as eight
  bytes, the most significant first.\<close>

definition sha_pad :: "byte list \<Rightarrow> byte list" where
  "sha_pad m =
     m @ [128] @ zeros ((119 - length m mod 64) mod 64)
       @ loop 0 8 (\<lambda>i bs. bs @ [(8 * length m) div 256 ^ (7 - i) mod 256]) []"

fun be_words :: "byte list \<Rightarrow> nat list" where
  "be_words (a # b # c # d # rest) = (((a * 256 + b) * 256 + c) * 256 + d) # be_words rest"
| "be_words rest = []"

text \<open>The message schedule: sixteen words extended to sixty-four.\<close>

definition schedule :: "nat list \<Rightarrow> nat list" where
  "schedule ws =
     loop 16 64
       (\<lambda>t v. v @ [w32 (sigma1 (v ! (t - 2)) + v ! (t - 7) + sigma0 (v ! (t - 15)) + v ! (t - 16))])
       ws"

text \<open>One round on the eight working variables, held in a list.\<close>

definition sha_round :: "nat list \<Rightarrow> nat \<Rightarrow> nat list \<Rightarrow> nat list" where
  "sha_round v t s =
     (let t1 = w32 (s ! 7 + Sigma1 (s ! 4) + Ch (s ! 4) (s ! 5) (s ! 6) + K256 ! t + v ! t);
          t2 = w32 (Sigma0 (s ! 0) + Maj (s ! 0) (s ! 1) (s ! 2))
      in [w32 (t1 + t2), s ! 0, s ! 1, s ! 2, w32 (s ! 3 + t1), s ! 4, s ! 5, s ! 6])"

definition compress :: "nat list \<Rightarrow> nat list \<Rightarrow> nat list" where
  "compress hs block =
     (let s = loop 0 64 (sha_round (schedule block)) hs
      in loop 0 8 (\<lambda>i r. r @ [w32 (hs ! i + s ! i)]) [])"

fun blocks16 :: "nat list \<Rightarrow> nat list list" where
  "blocks16 ws = (if length ws < 16 then [] else take 16 ws # blocks16 (drop 16 ws))"

declare blocks16.simps [simp del]

definition be_bytes :: "nat \<Rightarrow> byte list" where
  "be_bytes x = [x div 16777216 mod 256, x div 65536 mod 256, x div 256 mod 256, x mod 256]"

definition sha256 :: "byte list \<Rightarrow> byte list" where
  "sha256 m = concat (map be_bytes (foldl compress H256 (blocks16 (be_words (sha_pad m)))))"

section \<open>PKCE generator and authorization URL\<close>

text \<open>\<open>crypto.randomBytes(n)\<close>: the next \<open>n\<close> bytes of \<open>secure_random\<close>, the
  stream of the cryptographically secure generator of the platform.\<close>

definition randomBytes :: "nat \<Rightarrow> byte list io" where
  "randomBytes n = (\<lambda>w.
     (Ok (map (\<lambda>i. secure_random w i mod 256) [drawn w ..< drawn w + n]),
      (emit (EvRandomBytes n) w)\<lparr>drawn := drawn w + n\<rparr>))"

record PKCEPair =
  verifier :: string
  challenge :: string

definition generatePKCE :: "PKCEPair io" where
  "generatePKCE =
     seq (randomBytes 32) (\<lambda>bytes.
     (let verifier = base64url bytes;
          challenge = base64url (sha256 (utf8 verifier))
      in ret \<lparr>verifier = verifier, challenge = challenge\<rparr>))"

text \<open>The serialisation of \<open>URLSearchParams\<close>: letters, digits and \<open>*-._\<close> stay, a space
  becomes \<open>+\<close>, every other byte of the UTF-8 text becomes \<open>%XX\<close> in upper-case
  hexadecimal.\<close>

definition upper_hex :: "nat \<Rightarrow> char" where
  "upper_hex n = ''0123456789ABCDEF'' ! min n 15"

definition form_safe :: "char \<Rightarrow> bool" where
  "form_safe c =
     ((48 \<le> char_code c \<and> char_code c \<le> 57) \<or> (65 \<le> char_code c \<and> char_code c \<le> 90)
      \<or> (97 \<le> char_code c \<and> char_code c \<le> 122)
      \<or> c = CHR ''*'' \<or> c = CHR ''-'' \<or> c = CHR ''.'' \<or> c = CHR ''_'')"

definition form_encode_char :: "char \<Rightarrow> string" where
  "form_encode_char c =
     (if form_safe c then [c]
      else if c = CHR '' '' then ''+''
      else concat (map (\<lambda>b. [CHR ''%'', upper_hex (b div 16), upper_hex (b mod 16)])
                       (utf8_char c)))"

definition form_encode :: "string \<Rightarrow> string" where
  "form_encode s = concat (map form_encode_char s)"

definition search_params :: "(string \<times> string) list \<Rightarrow> string" where
  "search_params ps = join ''&'' (map (\<lambda>(k, v). form_encode k @ ''='' @ form_encode v) ps)"

definition getAuthorizationURL :: "PKCEPair \<Rightarrow> string" where
  "getAuthorizationURL pkce =
     ''https://claude.ai/oauth/authorize?'' @
     search_params
       [(''code'', ''true''),
        (''client_id'', CLIENT_ID),
        (''response_type'', ''code''),
        (''redirect_uri'', REDIRECT_URI),
        (''scope'', ''org:create_api_key user:profile user:inference''),
        (''code_challenge'', challenge pkce),
        (''code_challenge_method'', ''S256''),
        (''state'', verifier pkce)]"

section \<open>Interactive authentication flow\<close>

text \<open>\<open>child_process.exec(command, callback)\<close> wrapped in a promise: it resolves, is
  rejected with the error of the command, or never settles.\<close>

definition openUrl :: "string \<Rightarrow> unit io" where
  "openUrl u = (\<lambda>w.
     let command =
           (if platform w = ''darwin'' then ''open '' @ [CHR 0x22] @ u @ [CHR 0x22]
            else if platform w = ''win32''
              then ''start '' @ [CHR 0x22, CHR 0x22] @ '' '' @ [CHR 0x22] @ u @ [CHR 0x22]
            else ''xdg-open '' @ [CHR 0x22] @ u @ [CHR 0x22])
     in (exec_result w (trace w) command, emit (EvExec command) w))"

text \<open>The hooks of the caller. Each one is code of the caller: the model records that it
  was called and takes its outcome as given. \<open>onError\<close> is declared and never called.\<close>

record AuthFlowCallbacks =
  onAuthUrlReady :: "(string \<Rightarrow> unit outcome) option"
  promptForCode :: "string outcome option"
  onSuccess :: "unit outcome option"
  onError :: "(exn \<Rightarrow> unit outcome) option"

definition hook :: "AuthFlowCallbacks option \<Rightarrow> (AuthFlowCallbacks \<Rightarrow> 'a option) \<Rightarrow> 'a option" where
  "hook callbacks sel = (case callbacks of None \<Rightarrow> None | Some c \<Rightarrow> sel c)"

definition console_log :: "string \<Rightarrow> unit io" where
  "console_log s = (\<lambda>w. (Ok (), emit (EvConsoleLog s) w))"

definition notify_url :: "AuthFlowCallbacks option \<Rightarrow> string \<Rightarrow> unit io" where
  "notify_url callbacks authUrl =
     (case hook callbacks onAuthUrlReady of
        Some f \<Rightarrow> (\<lambda>w. (f authUrl, emit (EvAuthUrlReady authUrl) w))
      | None \<Rightarrow>
          seq (console_log ([CHR 0x0A] @ ''To authenticate, visit:'')) (\<lambda>_.
          seq (console_log authUrl) (\<lambda>_.
          console_log ([CHR 0x0A] @ ''Paste the authorization code below:''))))"

text \<open>\<open>String.prototype.trim\<close> on 8-bit characters.\<close>

definition is_space :: "char \<Rightarrow> bool" where
  "is_space c = (char_code c \<in> {9, 10, 11, 12, 13, 32, 160})"

definition trim :: "string \<Rightarrow> string" where
  "trim s = rev (dropWhile is_space (rev (dropWhile is_space s)))"

text \<open>The code comes from the hook, or from the first chunk of standard input, which may
  never arrive.\<close>

definition obtain_code :: "AuthFlowCallbacks option \<Rightarrow> string io" where
  "obtain_code callbacks =
     (case hook callbacks promptForCode of
        Some r \<Rightarrow> (\<lambda>w. (r, emit EvPromptForCode w))
      | None \<Rightarrow> (\<lambda>w.
          (case stdin_data w of None \<Rightarrow> Pending | Some d \<Rightarrow> Ok (trim d),
           emit EvStdinRead w)))"

definition notify_success :: "AuthFlowCallbacks option \<Rightarrow> unit io" where
  "notify_success callbacks =
     (case hook callbacks onSuccess of
        Some r \<Rightarrow> (\<lambda>w. (r, emit EvOnSuccess w))
      | None \<Rightarrow> ret ())"

definition authenticateWithClaude :: "AuthFlowCallbacks option \<Rightarrow> jsval io" where
  "authenticateWithClaude callbacks =
     seq getClaudeAccessToken (\<lambda>existingToken.
     if truthy existingToken then ret existingToken
     else
       seq generatePKCE (\<lambda>pkce.
       (let authUrl = getAuthorizationURL pkce in
        seq (try_catch (openUrl authUrl) (ret ())) (\<lambda>_.
        seq (notify_url callbacks authUrl) (\<lambda>_.
        seq (obtain_code callbacks) (\<lambda>code.
        seq (exchangeCodeForTokens code (verifier pkce)) (\<lambda>creds.
        seq (saveCredentials creds) (\<lambda>_.
        seq (notify_success callbacks) (\<lambda>_.
        ret (access_token creds))))))))))"

section \<open>Observations used in the statements\<close>

text \<open>The requests sent to the network so far, in order.\<close>

fun fetches_of :: "event list \<Rightarrow> request list" where
  "fetches_of [] = []"
| "fetches_of (EvFetch r # es) = r # fetches_of es"
| "fetches_of (e # es) = fetches_of es"

definition fetches :: "world \<Rightarrow> request list" where
  "fetches w = fetches_of (trace w)"

text \<open>The credential file can be read and parses to \<open>v\<close>.\<close>

definition stored :: "world \<Rightarrow> jsval \<Rightarrow> bool" where
  "stored w v =
     (\<not> fs_fault w (trace w) OpReadFile \<and>
      (case files w (CREDS_PATH w) of None \<Rightarrow> False | Some text \<Rightarrow> JSON_parse text = Some v))"

text \<open>The world once the credential file has been read and the clock consulted.\<close>

definition checked :: "world \<Rightarrow> world" where
  "checked w = (emit (EvReadFile (CREDS_PATH w)) w)\<lparr>ticks := Suc (ticks w)\<rparr>"

definition refresh_request :: "world \<Rightarrow> jsval \<Rightarrow> request" where
  "refresh_request w rt = token_request (ser (num_text w) [] [] (refresh_request_body rt))"

text \<open>A world for the scenarios: a home directory, the credential file with the given
  contents and its directory (if any), a clock that stands still, an endpoint that answers
  every request the same way, and no faults.\<close>

definition scenario :: "string option \<Rightarrow> int \<Rightarrow> (exn + response) \<Rightarrow> world" where
  "scenario file now answer =
     \<lparr>home = [''home'', ''user''],
      platform = ''linux'',
      dirs = (case file of
                None \<Rightarrow> set (prefixes [''home'', ''user''])
              | Some s \<Rightarrow> set (prefixes [''home'', ''user'', ''.titan'', ''credentials''])),
      files = (case file of
                 None \<Rightarrow> Map.empty
               | Some s \<Rightarrow> [[''home'', ''user'', ''.titan'', ''credentials'', ''claude.json''] \<mapsto> s]),
      modes = Map.empty,
      trace = [],
      clock = (\<lambda>_ _. now),
      ticks = 0,
      secure_random = (\<lambda>i. i),
      drawn = 0,
      net = (\<lambda>_ _. answer),
      fs_fault = (\<lambda>_ _. False),
      exec_result = (\<lambda>_ _. Ok ()),
      coerce = (\<lambda>_. NaN),
      num_text = (\<lambda>_. ''0''),
      fl_add = (\<lambda>_ _. NaN),
      fl_mul = (\<lambda>_ _. NaN),
      stdin_data = None\<rparr>"

text \<open>The text \<open>saveCredentials\<close> writes for string tokens and an integer expiry.\<close>

definition credential_text :: "string \<Rightarrow> string \<Rightarrow> int \<Rightarrow> string" where
  "credential_text a r e =
     ''{'' @ [CHR 0x0A] @ ''  '' @ quote ''access_token'' @ '': '' @ quote a @ '','' @ [CHR 0x0A]
         @ ''  '' @ quote ''refresh_token'' @ '': '' @ quote r @ '','' @ [CHR 0x0A]
         @ ''  '' @ quote ''expires_at'' @ '': '' @ int_text e @ [CHR 0x0A] @ ''}''"

text \<open>The request of the authorization-code exchange.\<close>

definition code_request :: "world \<Rightarrow> string \<Rightarrow> string \<Rightarrow> request" where
  "code_request w code vrf =
     token_request (ser (num_text w) [] [] (code_request_body code vrf))"

text \<open>The credential a successful refresh builds from the body \<open>data\<close>, when the
  accessor started in \<open>w\<close> and sent the refresh token \<open>rt\<close>: the clock is read a second
  time, once the file has been read, the request sent, and the response and its body
  received.\<close>

definition refreshed :: "world \<Rightarrow> jsval \<Rightarrow> jsval \<Rightarrow> Credentials" where
  "refreshed w rt data =
     \<lparr>access_token = field data ''access_token'',
      refresh_token = field data ''refresh_token'',
      expires_at =
        num_add (fl_add w)
          (Fin (of_int (clock w
             (trace w @ [EvReadFile (CREDS_PATH w), EvFetch (refresh_request w rt),
                         EvResponse, EvBody])
             (Suc (ticks w)))))
          (num_mul (fl_mul w) (to_number (coerce w) (field data ''expires_in'')) (Fin 1000))\<rparr>"

text \<open>All three fields of the interface \<open>Credentials\<close> are present.\<close>

definition complete_credential :: "jsval \<Rightarrow> bool" where
  "complete_credential v =
     (field v ''access_token'' \<noteq> JUndefined \<and>
      field v ''refresh_token'' \<noteq> JUndefined \<and>
      field v ''expires_at'' \<noteq> JUndefined)"

text \<open>The 32 bytes the random source yields from position \<open>k\<close> past those already
  drawn: \<open>drawn_bytes w 0\<close> is what the next call of \<open>randomBytes 32\<close> returns,
  \<open>drawn_bytes w 32\<close> what the call after it returns.\<close>

definition drawn_bytes :: "world \<Rightarrow> nat \<Rightarrow> byte list" where
  "drawn_bytes w k = map (\<lambda>i. secure_random w i mod 256) [drawn w + k ..< drawn w + k + 32]"

section \<open>Basic facts\<close>

lemma fetches_of_append: "fetches_of (xs @ ys) = fetches_of xs @ fetches_of ys"
  by (induction xs rule: fetches_of.induct) simp_all

lemma fetches_emit:
  "fetches (emit e w) = fetches w @ (case e of EvFetch r \<Rightarrow> [r] | _ \<Rightarrow> [])"
  by (cases e) (simp_all add: fetches_def emit_def fetches_of_append)

lemma emit_sel:
  "clock (emit e w) = clock w" "ticks (emit e w) = ticks w" "coerce (emit e w) = coerce w"
  "num_text (emit e w) = num_text w" "files (emit e w) = files w" "dirs (emit e w) = dirs w"
  "modes (emit e w) = modes w" "home (emit e w) = home w" "net (emit e w) = net w"
  "fs_fault (emit e w) = fs_fault w" "trace (emit e w) = trace w @ [e]"
  "fl_add (emit e w) = fl_add w" "fl_mul (emit e w) = fl_mul w"
  "CREDS_PATH (emit e w) = CREDS_PATH w"
  by (simp_all add: emit_def CREDS_PATH_def)

lemma checked_sel:
  "clock (checked w) = clock w" "ticks (checked w) = Suc (ticks w)" "coerce (checked w) = coerce w"
  "num_text (checked w) = num_text w" "files (checked w) = files w" "dirs (checked w) = dirs w"
  "modes (checked w) = modes w" "home (checked w) = home w" "net (checked w) = net w"
  "fs_fault (checked w) = fs_fault w"
  "trace (checked w) = trace w @ [EvReadFile (CREDS_PATH w)]"
  "fl_add (checked w) = fl_add w" "fl_mul (checked w) = fl_mul w"
  "refresh_request (checked w) = refresh_request w" "CREDS_PATH (checked w) = CREDS_PATH w"
  "fetches (checked w) = fetches w"
  by (simp_all add: checked_def emit_def refresh_request_def CREDS_PATH_def fun_eq_iff
        fetches_def fetches_of_append)

lemma load_stored:
  "stored w v \<Longrightarrow> loadCredentials w = (Ok v, emit (EvReadFile (CREDS_PATH w)) w)"
  by (auto simp: stored_def loadCredentials_def try_catch_def seq_def fs_readFile_def
        JSON_parse_or_throw_def ret_def Let_def split: option.splits)

lemma credentials_of_fetches: "fetches (snd (credentials_of d w)) = fetches w"
  by (simp add: credentials_of_def seq_def get_prop_def throw_def ret_def Date_now_def
        ToNumber_def js_mul_def js_add_def fetches_def)

lemma credentials_of_store:
  "files (snd (credentials_of d w)) = files w \<and> dirs (snd (credentials_of d w)) = dirs w
   \<and> modes (snd (credentials_of d w)) = modes w"
  by (simp add: credentials_of_def seq_def get_prop_def throw_def ret_def Date_now_def
        ToNumber_def js_mul_def js_add_def)

lemma response_json_fetches: "fetches (snd (response_json r w)) = fetches w"
  by (simp add: response_json_def fetches_emit split: sum.splits)

lemma saveCredentials_fetches: "fetches (snd (saveCredentials c w)) = fetches w"
  by (simp add: saveCredentials_def seq_def fs_mkdir_recursive_def JSON_stringify_2_def
        creds_obj_def fs_writeFile_def fs_chmod_def try_catch_def ret_def throw_def Let_def
        fetches_def emit_def fetches_of_append)

lemma seq_fetches:
  assumes "\<And>w. fetches (snd (m w)) = fetches w @ a w"
    and "\<And>x w. fetches (snd (f x w)) = fetches w"
  shows "fetches (snd (seq m f w)) = fetches w @ a w"
  using assms(1) [of w] assms(2)
  by (auto simp: seq_def split: prod.splits outcome.splits)

lemma decode_fetches:
  "fetches (snd (seq (response_json r) credentials_of w)) = fetches w"
  using seq_fetches [of "response_json r" "\<lambda>w. []" credentials_of w]
  by (simp add: response_json_fetches credentials_of_fetches)

lemma refreshAccessToken_fetches:
  "fetches (snd (refreshAccessToken rt w)) = fetches w @ [refresh_request w rt]"
proof -
  define K where "K = (\<lambda>response.
     if \<not> ok response
     then throw (Error (''Token refresh failed: '' @ statusText response))
     else seq (response_json response) credentials_of)"
  have k: "\<And>r w. fetches (snd (K r w)) = fetches w"
    by (simp add: K_def throw_def decode_fetches)
  have "refreshAccessToken rt =
        seq (JSON_stringify (refresh_request_body rt)) (\<lambda>b. seq (fetch (token_request b)) K)"
    by (simp add: refreshAccessToken_def K_def)
  then show ?thesis
    by (auto simp: seq_def JSON_stringify_def fetch_def Let_def refresh_request_def
          fetches_emit k split: sum.splits)
qed

lemma exchangeCodeForTokens_fetches:
  "fetches (snd (exchangeCodeForTokens code vrf w)) = fetches w @ [code_request w code vrf]"
proof -
  define K where "K = (\<lambda>response.
     if \<not> ok response
     then throw (Error (''Token exchange failed: '' @ statusText response))
     else seq (response_json response) credentials_of)"
  have k: "\<And>r w. fetches (snd (K r w)) = fetches w"
    by (simp add: K_def throw_def decode_fetches)
  have "exchangeCodeForTokens code vrf =
        seq (JSON_stringify (code_request_body code vrf))
          (\<lambda>b. seq (fetch (token_request b)) K)"
    by (simp add: exchangeCodeForTokens_def K_def)
  then show ?thesis
    by (auto simp: seq_def JSON_stringify_def fetch_def Let_def code_request_def
          fetches_emit k split: sum.splits)
qed

lemma refresh_and_save_fetches:
  assumes "creds \<noteq> JUndefined" "creds \<noteq> JNull"
  shows "fetches (snd (refresh_and_save creds w)) =
         fetches w @ [refresh_request w (field creds ''refresh_token'')]"
proof -
  let ?rt = "field creds ''refresh_token''"
  let ?body = "seq (refreshAccessToken ?rt) (\<lambda>newCreds.
        seq (saveCredentials newCreds) (\<lambda>_. ret (access_token newCreds)))"
  have inner: "\<And>x w. fetches (snd (seq (saveCredentials x) (\<lambda>_. ret (access_token x)) w)) = fetches w"
    using saveCredentials_fetches
    by (auto simp: seq_def ret_def split: prod.splits outcome.splits) (metis snd_conv)+
  have b: "fetches (snd (?body w)) = fetches w @ [refresh_request w ?rt]"
    by (rule seq_fetches [where a = "\<lambda>w. [refresh_request w ?rt]"])
       (simp_all add: refreshAccessToken_fetches inner)
  have "refresh_and_save creds = try_catch ?body (ret JNull)"
    using assms by (simp add: refresh_and_save_def get_prop_def seq_def ret_def)
  then show ?thesis using b
    by (auto simp: try_catch_def ret_def split: prod.splits outcome.splits)
qed

lemma truthy_defined: "truthy v \<Longrightarrow> v \<noteq> JUndefined \<and> v \<noteq> JNull"
  by (cases v) simp_all

lemma accessor_unfold:
  assumes "stored w creds" "truthy creds" "\<not> unprimitive (field creds ''expires_at'')"
  shows "getClaudeAccessToken w =
    (if num_gt (to_number (coerce w) (field creds ''expires_at''))
               (Fin (of_int (clock w (trace w @ [EvReadFile (CREDS_PATH w)]) (ticks w)) + 60000))
     then (Ok (field creds ''access_token''), checked w)
     else refresh_and_save creds (checked w))"
  using truthy_defined [OF assms(2)] assms(3)
  by (simp add: getClaudeAccessToken_def seq_def load_stored [OF assms(1)] assms(2)
        get_prop_def ret_def Date_now_def ToNumber_def checked_def emit_def)

lemma accessor_number:
  assumes "stored w creds" "field creds ''expires_at'' = JNum (Fin e)"
  shows "getClaudeAccessToken w =
    (if of_int (clock w (trace w @ [EvReadFile (CREDS_PATH w)]) (ticks w)) + 60000 < e
     then (Ok (field creds ''access_token''), checked w)
     else refresh_and_save creds (checked w))"
proof -
  from assms(2) have t: "truthy creds" by (cases creds) simp_all
  show ?thesis
    using accessor_unfold [OF assms(1) t] by (simp add: assms(2) num_gt_def)
qed

lemmas parse_eval = lex.simps is_ws_def is_digit_def char_code_def JSON_parse_def
  value_start_def scan_number_def scan_unsigned_def scan_frac_def scan_exp_def digits_val_def
  digit_val_def pow10_def hex4_def hex_val_def unescape_def

lemmas text_eval = credential_text_def quote_def quote_char_def int_text_def digits.simps
  digit_char_def

lemma scenario_sel:
  "clock (scenario f n a) tr t = n" "ticks (scenario f n a) = 0" "trace (scenario f n a) = []"
  "fetches (scenario f n a) = []" "home (scenario f n a) = [''home'', ''user'']"
  "net (scenario f n a) tr rq = a" "fs_fault (scenario f n a) tr op = False"
  "coerce (scenario f n a) v = NaN" "num_text (scenario f n a) q = ''0''"
  by (simp_all add: scenario_def fetches_def)

lemma stored_scenario_61:
  "stored (scenario (Some (credential_text ''A'' ''R'' 1061000)) 1000000 ans)
     (JObj [(''access_token'', JStr ''A''), (''refresh_token'', JStr ''R''),
            (''expires_at'', JNum (Fin 1061000))])"
  by (simp add: stored_def scenario_def CREDS_PATH_def text_eval parse_eval)

lemma stored_scenario_59:
  "stored (scenario (Some (credential_text ''A'' ''R'' 1059000)) 1000000 ans)
     (JObj [(''access_token'', JStr ''A''), (''refresh_token'', JStr ''R''),
            (''expires_at'', JNum (Fin 1059000))])"
  by (simp add: stored_def scenario_def CREDS_PATH_def text_eval parse_eval)

lemma stored_scenario_expired:
  "stored (scenario (Some (credential_text ''A'' ''R'' 999000)) 1000000 ans)
     (JObj [(''access_token'', JStr ''A''), (''refresh_token'', JStr ''R''),
            (''expires_at'', JNum (Fin 999000))])"
  by (simp add: stored_def scenario_def CREDS_PATH_def text_eval parse_eval)

lemma stored_fault:
  "stored w v \<Longrightarrow> stored (w\<lparr>fs_fault := \<lambda>tr op. op = OpWriteFile\<rparr>) v"
  by (simp add: stored_def CREDS_PATH_def)

section \<open>The high-level accessor\<close>

text \<open>
  Claim C1. For a stored credential whose \<open>expires_at\<close> is the number \<open>e\<close>, with \<open>now\<close>
  the clock reading of the check, taken once the file has been read: when \<open>e\<close> is more
  than 60000 ms past \<open>now\<close>, \<open>getClaudeAccessToken\<close> returns the stored \<open>access_token\<close>
  and sends nothing to the network; otherwise it goes on to the refresh, and the one request
  it sends is the refresh-token exchange with the stored \<open>refresh_token\<close>.
\<close>

theorem getClaudeAccessToken_expiry_margin:
  assumes "stored w creds" and "field creds ''expires_at'' = JNum (Fin e)"
  shows "if of_int (clock w (trace w @ [EvReadFile (CREDS_PATH w)]) (ticks w)) + 60000 < e
         then fst (getClaudeAccessToken w) = Ok (field creds ''access_token'')
              \<and> fetches (snd (getClaudeAccessToken w)) = fetches w
         else fetches (snd (getClaudeAccessToken w)) =
                fetches w @ [refresh_request w (field creds ''refresh_token'')]"
proof -
  from assms(2) have t: "truthy creds" by (cases creds) simp_all
  show ?thesis
    using accessor_number [OF assms] refresh_and_save_fetches [of creds "checked w"]
      truthy_defined [OF t]
    by (simp add: checked_sel)
qed

theorem getClaudeAccessToken_expiry_margin_witness:
  "(let w = scenario (Some (credential_text ''A'' ''R'' 1061000)) 1000000 (Inl FetchError)
    in fst (getClaudeAccessToken w) = Ok (JStr ''A'') \<and> fetches (snd (getClaudeAccessToken w)) = [])
   \<and>
   (let w = scenario (Some (credential_text ''A'' ''R'' 1059000)) 1000000 (Inl FetchError)
    in fetches (snd (getClaudeAccessToken w)) = [refresh_request w (JStr ''R'')])"
  using getClaudeAccessToken_expiry_margin [OF stored_scenario_61, of 1061000 "Inl FetchError"]
        getClaudeAccessToken_expiry_margin [OF stored_scenario_59, of 1059000 "Inl FetchError"]
  by (simp add: scenario_sel Let_def)

lemma ser_creds_obj: "\<exists>s. ser nt gap ind (creds_obj c) = Some s"
  by (simp add: creds_obj_def)

lemma saveCredentials_unfold:
  assumes "ser (num_text w) ''  '' [] (creds_obj c) = Some s"
  shows "saveCredentials c w =
     (let p = CREDS_PATH w;
          w1 = emit (EvMkdir (dirname p)) w;
          w2 = emit (EvWriteFile p s) (w1\<lparr>dirs := dirs w \<union> set (prefixes (dirname p))\<rparr>);
          w3 = emit (EvChmod p 384) (w2\<lparr>files := (files w)(p \<mapsto> s)\<rparr>)
      in if fs_fault w (trace w) OpMkdir then (Throw (FsError OpMkdir), w1)
         else if fs_fault w (trace w1) OpWriteFile then (Throw (FsError OpWriteFile), w2)
         else if fs_fault w (trace w2) OpChmod then (Ok (), w3)
         else (Ok (), w3\<lparr>modes := (modes w)(p \<mapsto> 384)\<rparr>))"
proof -
  have d: "butlast (CREDS_PATH w) \<in> set (prefixes (butlast (CREDS_PATH w)))"
    by (simp add: in_set_prefixes)
  show ?thesis
    using d
    by (simp add: saveCredentials_def seq_def fs_mkdir_recursive_def JSON_stringify_2_def assms
        fs_writeFile_def fs_chmod_def try_catch_def ret_def Let_def emit_def dirname_def)
qed


lemma ser_credential_text:
  assumes "\<bar>e\<bar> \<le> 9007199254740992"
  shows "ser nt ''  '' [] (creds_obj \<lparr>access_token = JStr a, refresh_token = JStr r,
            expires_at = Fin (of_int e)\<rparr>) = Some (credential_text a r e)"
proof -
  have "\<bar>(of_int e :: rat)\<bar> \<le> 9007199254740992"
    using assms by (metis of_int_abs of_int_le_iff of_int_numeral)
  then show ?thesis
    by (simp add: creds_obj_def wrap_def number_text_def credential_text_def safe_int_def)
qed

section \<open>Credential store\<close>

text \<open>
  Claim C8. \<open>saveCredentials\<close> first creates the directory of the credential file with
  all its ancestors; a failure there, or a failure of the write, is thrown to the caller and
  leaves the files as they were. When the write succeeds the file holds exactly the JSON
  text of the credential, and the result is success whether or not the change of the
  permissions to \<open>0o600\<close> (384) succeeds.
\<close>

theorem saveCredentials_contract:
  assumes "ser (num_text w) ''  '' [] (creds_obj c) = Some s"
  shows "let p = CREDS_PATH w; d = dirname p; r = saveCredentials c w in
     if fs_fault w (trace w) OpMkdir
     then fst r = Throw (FsError OpMkdir) \<and> files (snd r) = files w
     else set (prefixes d) \<subseteq> dirs (snd r) \<and>
       (if fs_fault w (trace w @ [EvMkdir d]) OpWriteFile
        then fst r = Throw (FsError OpWriteFile) \<and> files (snd r) = files w
        else fst r = Ok () \<and> files (snd r) = (files w)(p \<mapsto> s) \<and>
          (if fs_fault w (trace w @ [EvMkdir d, EvWriteFile p s]) OpChmod
           then modes (snd r) = modes w
           else modes (snd r) p = Some 384))"
  by (simp add: saveCredentials_unfold [OF assms] Let_def emit_sel emit_def)


theorem saveCredentials_contract_witness:
  "(let w = scenario None 1000000 (Inl FetchError);
        r = saveCredentials \<lparr>access_token = JStr ''B'', refresh_token = JStr ''R2'',
                              expires_at = Fin 4600000\<rparr> w
    in fst r = Ok ()
       \<and> files (snd r) (CREDS_PATH w) = Some (credential_text ''B'' ''R2'' 4600000)
       \<and> [''home'', ''user'', ''.titan''] \<in> dirs (snd r)
       \<and> [''home'', ''user'', ''.titan'', ''credentials''] \<in> dirs (snd r)
       \<and> modes (snd r) (CREDS_PATH w) = Some 384)
   \<and>
   (let w = (scenario None 1000000 (Inl FetchError))\<lparr>fs_fault := \<lambda>tr op. op = OpChmod\<rparr>;
        r = saveCredentials \<lparr>access_token = JStr ''B'', refresh_token = JStr ''R2'',
                              expires_at = Fin 4600000\<rparr> w
    in fst r = Ok ()
       \<and> files (snd r) (CREDS_PATH w) = Some (credential_text ''B'' ''R2'' 4600000)
       \<and> modes (snd r) (CREDS_PATH w) = None)
   \<and>
   (let w = (scenario None 1000000 (Inl FetchError))\<lparr>fs_fault := \<lambda>tr op. op = OpWriteFile\<rparr>;
        r = saveCredentials \<lparr>access_token = JStr ''B'', refresh_token = JStr ''R2'',
                              expires_at = Fin 4600000\<rparr> w
    in fst r = Throw (FsError OpWriteFile) \<and> files (snd r) (CREDS_PATH w) = None)"
proof -
  note t = ser_credential_text [of 4600000 _ "''B''" "''R2''", simplified]
  show ?thesis
    using saveCredentials_contract [OF t, of "scenario None 1000000 (Inl FetchError)"]
      saveCredentials_contract [OF t,
        of "(scenario None 1000000 (Inl FetchError))\<lparr>fs_fault := \<lambda>tr op. op = OpChmod\<rparr>"]
      saveCredentials_contract [OF t,
        of "(scenario None 1000000 (Inl FetchError))\<lparr>fs_fault := \<lambda>tr op. op = OpWriteFile\<rparr>"]
    by (simp add: Let_def scenario_def CREDS_PATH_def dirname_def)
qed

lemma credentials_of_object:
  assumes "data \<noteq> JUndefined" "data \<noteq> JNull" "\<not> unprimitive (field data ''expires_in'')"
  shows "credentials_of data w =
    (Ok \<lparr>access_token = field data ''access_token'',
         refresh_token = field data ''refresh_token'',
         expires_at = num_add (fl_add w) (Fin (of_int (clock w (trace w) (ticks w))))
                        (num_mul (fl_mul w) (to_number (coerce w) (field data ''expires_in''))
                           (Fin 1000))\<rparr>,
     w\<lparr>ticks := Suc (ticks w)\<rparr>)"
  using assms
  by (simp add: credentials_of_def seq_def get_prop_def ret_def Date_now_def ToNumber_def
        js_mul_def js_add_def)

lemma refreshAccessToken_ok:
  assumes "net w (trace w) (refresh_request w rt) = Inr resp" "ok resp" "json resp = Inr data"
  shows "refreshAccessToken rt w =
         credentials_of data
           (emit EvBody (emit EvResponse (emit (EvFetch (refresh_request w rt)) w)))"
  using assms
  by (simp add: refreshAccessToken_def seq_def JSON_stringify_def fetch_def Let_def
        refresh_request_def response_json_def)

lemma exchangeCodeForTokens_ok:
  assumes "net w (trace w) (code_request w code vrf) = Inr resp" "ok resp" "json resp = Inr data"
  shows "exchangeCodeForTokens code vrf w =
         credentials_of data
           (emit EvBody (emit EvResponse (emit (EvFetch (code_request w code vrf)) w)))"
  using assms
  by (simp add: exchangeCodeForTokens_def seq_def JSON_stringify_def fetch_def Let_def
        code_request_def response_json_def)

lemma safe_int_of_int: "\<bar>k\<bar> \<le> 9007199254740992 \<Longrightarrow> safe_int (of_int k)"
proof -
  assume "\<bar>k\<bar> \<le> 9007199254740992"
  then have "\<bar>(of_int k :: rat)\<bar> \<le> 9007199254740992"
    by (metis of_int_abs of_int_le_iff of_int_numeral)
  then show ?thesis by (simp add: safe_int_def)
qed

lemma expiry_exact:
  assumes "\<bar>t\<bar> \<le> 9007199254740992" "\<bar>n * 1000\<bar> \<le> 9007199254740992"
    "\<bar>t + n * 1000\<bar> \<le> 9007199254740992"
  shows "num_add fa (Fin (of_int t)) (num_mul fm (Fin (of_int n)) (Fin 1000)) =
         Fin (of_int (t + n * 1000))"
proof -
  from assms(2) have n: "\<bar>n\<bar> \<le> 9007199254740992" by (simp add: abs_mult)
  have k: "safe_int 1000" by (simp add: safe_int_def)
  have m: "safe_int (of_int n * 1000)"
    using safe_int_of_int [OF assms(2)] by simp
  have s: "safe_int (of_int t + of_int n * 1000)"
    using safe_int_of_int [OF assms(3)] by simp
  show ?thesis
    by (simp add: num_add_def num_mul_def safe_int_of_int [OF n] safe_int_of_int [OF assms(1)]
          k m s)
qed

section \<open>Token exchanger\<close>

text \<open>
  Claim C6. When the token endpoint answers with a success status and a JSON body whose
  \<open>expires_in\<close> is the whole number \<open>n\<close> of seconds, both \<open>exchangeCodeForTokens\<close>
  and \<open>refreshAccessToken\<close> return a credential whose \<open>expires_at\<close> is \<open>t + n * 1000\<close>,
  where \<open>t\<close> is the reading of the clock taken once the request has been sent and the
  response and its body have been received; an \<open>expires_at\<close> in the body plays no part.
  The bounds keep the product and the sum among the integers that double arithmetic
  computes exactly; every time value and every lifetime in seconds is far inside them.
\<close>

theorem exchanges_compute_expires_at:
  assumes "ok resp" and "json resp = Inr data"
    and "field data ''expires_in'' = JNum (Fin (of_int n))"
    and "\<bar>n * 1000\<bar> \<le> 9007199254740992"
  shows "(let req = code_request w code vrf;
              t = clock w (trace w @ [EvFetch req, EvResponse, EvBody]) (ticks w)
          in net w (trace w) req = Inr resp \<and> \<bar>t\<bar> \<le> 9007199254740992
               \<and> \<bar>t + n * 1000\<bar> \<le> 9007199254740992 \<longrightarrow>
             fst (exchangeCodeForTokens code vrf w) =
               Ok \<lparr>access_token = field data ''access_token'',
                   refresh_token = field data ''refresh_token'',
                   expires_at = Fin (of_int (t + n * 1000))\<rparr>)
       \<and> (let req = refresh_request w rt;
              t = clock w (trace w @ [EvFetch req, EvResponse, EvBody]) (ticks w)
          in net w (trace w) req = Inr resp \<and> \<bar>t\<bar> \<le> 9007199254740992
               \<and> \<bar>t + n * 1000\<bar> \<le> 9007199254740992 \<longrightarrow>
             fst (refreshAccessToken rt w) =
               Ok \<lparr>access_token = field data ''access_token'',
                   refresh_token = field data ''refresh_token'',
                   expires_at = Fin (of_int (t + n * 1000))\<rparr>)"
proof -
  from assms(3) have d: "data \<noteq> JUndefined" "data \<noteq> JNull" by auto
  have u: "\<not> unprimitive (field data ''expires_in'')" by (simp add: assms(3))
  show ?thesis
    by (simp add: exchangeCodeForTokens_ok [OF _ assms(1,2)] refreshAccessToken_ok [OF _ assms(1,2)]
          credentials_of_object [OF d u] assms(3) emit_sel Let_def expiry_exact [OF _ assms(4)])
qed

theorem exchanges_compute_expires_at_witness:
  "(let data = JObj [(''access_token'', JStr ''B''), (''refresh_token'', JStr ''R2''),
                     (''expires_in'', JNum (Fin 3600)), (''expires_at'', JNum (Fin 5))];
        resp = \<lparr>ok = True, statusText = ''OK'', json = Inr data\<rparr>;
        w = (scenario None 1000000 (Inr resp))
              \<lparr>clock := \<lambda>tr k. if EvBody \<in> set tr then 1000250 else 1000000\<rparr>
    in fst (exchangeCodeForTokens ''abc123#xyzstate'' ''v'' w) =
         Ok \<lparr>access_token = JStr ''B'', refresh_token = JStr ''R2'', expires_at = Fin 4600250\<rparr>
     \<and> fst (refreshAccessToken (JStr ''R'') w) =
         Ok \<lparr>access_token = JStr ''B'', refresh_token = JStr ''R2'', expires_at = Fin 4600250\<rparr>)"
  using exchanges_compute_expires_at
    [of "\<lparr>ok = True, statusText = ''OK'',
          json = Inr (JObj [(''access_token'', JStr ''B''), (''refresh_token'', JStr ''R2''),
                     (''expires_in'', JNum (Fin 3600)), (''expires_at'', JNum (Fin 5))])\<rparr>"
        "JObj [(''access_token'', JStr ''B''), (''refresh_token'', JStr ''R2''),
                     (''expires_in'', JNum (Fin 3600)), (''expires_at'', JNum (Fin 5))]"
        3600
        "(scenario None 1000000 (Inr \<lparr>ok = True, statusText = ''OK'',
          json = Inr (JObj [(''access_token'', JStr ''B''), (''refresh_token'', JStr ''R2''),
                     (''expires_in'', JNum (Fin 3600)), (''expires_at'', JNum (Fin 5))])\<rparr>))
              \<lparr>clock := \<lambda>tr k. if EvBody \<in> set tr then 1000250 else 1000000\<rparr>"
        "''abc123#xyzstate''" "''v''" "JStr ''R''"]
  by (simp add: scenario_def Let_def)


lemma refreshAccessToken_store:
  "files (snd (refreshAccessToken rt w)) = files w \<and> dirs (snd (refreshAccessToken rt w)) = dirs w
   \<and> modes (snd (refreshAccessToken rt w)) = modes w"
proof -
  define K where "K = (\<lambda>response.
     if \<not> ok response
     then throw (Error (''Token refresh failed: '' @ statusText response))
     else seq (response_json response) credentials_of)"
  have k: "\<And>r w. files (snd (K r w)) = files w \<and> dirs (snd (K r w)) = dirs w
                  \<and> modes (snd (K r w)) = modes w"
    using credentials_of_store
    by (auto simp: K_def throw_def seq_def response_json_def emit_sel split: sum.splits)
  have "refreshAccessToken rt =
        seq (JSON_stringify (refresh_request_body rt)) (\<lambda>b. seq (fetch (token_request b)) K)"
    by (simp add: refreshAccessToken_def K_def)
  then show ?thesis
    by (auto simp: seq_def JSON_stringify_def fetch_def Let_def emit_sel k split: sum.splits)
qed

lemma refresh_and_save_thrown:
  assumes "creds \<noteq> JUndefined" "creds \<noteq> JNull"
    and "fst (refreshAccessToken (field creds ''refresh_token'') w) = Throw e"
  shows "refresh_and_save creds w =
         (Ok JNull, snd (refreshAccessToken (field creds ''refresh_token'') w))"
  using assms
  by (cases "refreshAccessToken (field creds ''refresh_token'') w")
     (simp add: refresh_and_save_def get_prop_def seq_def ret_def try_catch_def)

lemma refreshAccessToken_not_ok:
  assumes "net w (trace w) (refresh_request w rt) = Inr resp" "\<not> ok resp"
  shows "refreshAccessToken rt w =
         (Throw (Error (''Token refresh failed: '' @ statusText resp)),
          emit EvResponse (emit (EvFetch (refresh_request w rt)) w))"
  using assms
  by (simp add: refreshAccessToken_def seq_def JSON_stringify_def fetch_def Let_def
        refresh_request_def throw_def)

section \<open>Refresh\<close>

text \<open>
  Claim C3. For a stored credential whose \<open>expires_at\<close> is a number not more than
  60000 ms past the clock reading of the check, if the refresh-token exchange throws,
  whatever the error, \<open>getClaudeAccessToken\<close> returns \<open>null\<close> without throwing, and the
  files, directories and permissions are those it started with: the stale credential file
  is neither deleted nor overwritten.
\<close>

theorem refresh_failure_is_unauthenticated:
  assumes "stored w creds" and "field creds ''expires_at'' = JNum (Fin e)"
    and "\<not> of_int (clock w (trace w @ [EvReadFile (CREDS_PATH w)]) (ticks w)) + 60000 < e"
    and "fst (refreshAccessToken (field creds ''refresh_token'') (checked w)) = Throw x"
  shows "fst (getClaudeAccessToken w) = Ok JNull
         \<and> files (snd (getClaudeAccessToken w)) = files w
         \<and> dirs (snd (getClaudeAccessToken w)) = dirs w
         \<and> modes (snd (getClaudeAccessToken w)) = modes w"
proof -
  from assms(2) have d: "creds \<noteq> JUndefined" "creds \<noteq> JNull" by auto
  have "getClaudeAccessToken w = refresh_and_save creds (checked w)"
    using accessor_number [OF assms(1,2)] assms(3) by simp
  also have "\<dots> = (Ok JNull, snd (refreshAccessToken (field creds ''refresh_token'') (checked w)))"
    using d assms(4) by (simp add: refresh_and_save_thrown)
  finally show ?thesis
    by (simp add: refreshAccessToken_store checked_sel)
qed

theorem refresh_failure_is_unauthenticated_witness:
  "(let w = scenario (Some (credential_text ''A'' ''R'' 999000)) 1000000
              (Inr \<lparr>ok = False, statusText = ''Unauthorized'', json = Inl DecodeError\<rparr>);
        r = getClaudeAccessToken w
    in fst r = Ok JNull
       \<and> files (snd r) (CREDS_PATH w) = Some (credential_text ''A'' ''R'' 999000))"
proof -
  let ?resp = "\<lparr>ok = False, statusText = ''Unauthorized'', json = Inl DecodeError\<rparr>"
  let ?w = "scenario (Some (credential_text ''A'' ''R'' 999000)) 1000000 (Inr ?resp)"
  have t: "fst (refreshAccessToken (JStr ''R'') (checked ?w)) =
           Throw (Error ''Token refresh failed: Unauthorized'')"
    by (simp add: refreshAccessToken_not_ok [where resp = ?resp] checked_sel scenario_sel)
  have f: "files ?w (CREDS_PATH ?w) = Some (credential_text ''A'' ''R'' 999000)"
    by (simp add: scenario_def CREDS_PATH_def)
  show ?thesis
    using refresh_failure_is_unauthenticated [OF stored_scenario_expired, of 999000 "Inr ?resp"
        "Error ''Token refresh failed: Unauthorized''"] t f
    by (simp add: Let_def scenario_sel)
qed


lemma saveCredentials_no_fault:
  assumes "\<forall>tr. \<not> fs_fault w tr OpMkdir \<and> \<not> fs_fault w tr OpWriteFile"
  shows "fst (saveCredentials c w) = Ok ()
         \<and> files (snd (saveCredentials c w)) (CREDS_PATH w) = ser (num_text w) ''  '' [] (creds_obj c)"
proof -
  obtain s where s: "ser (num_text w) ''  '' [] (creds_obj c) = Some s"
    using ser_creds_obj by blast
  show ?thesis
    using assms by (simp add: saveCredentials_unfold [OF s] Let_def s emit_sel emit_def)
qed

lemma saveCredentials_write_fault:
  assumes "\<forall>tr. \<not> fs_fault w tr OpMkdir \<and> fs_fault w tr OpWriteFile"
  shows "fst (saveCredentials c w) = Throw (FsError OpWriteFile)
         \<and> files (snd (saveCredentials c w)) = files w"
proof -
  obtain s where s: "ser (num_text w) ''  '' [] (creds_obj c) = Some s"
    using ser_creds_obj by blast
  show ?thesis
    using assms by (simp add: saveCredentials_unfold [OF s] Let_def s emit_sel emit_def)
qed

lemma refresh_and_save_ok:
  assumes "creds \<noteq> JUndefined" "creds \<noteq> JNull"
    and "refreshAccessToken (field creds ''refresh_token'') w = (Ok c, w')"
    and "fst (saveCredentials c w') = Ok ()"
  shows "refresh_and_save creds w = (Ok (access_token c), snd (saveCredentials c w'))"
  using assms
  by (cases "saveCredentials c w'")
     (simp add: refresh_and_save_def get_prop_def seq_def ret_def try_catch_def)

lemma refresh_and_save_unsaved:
  assumes "creds \<noteq> JUndefined" "creds \<noteq> JNull"
    and "refreshAccessToken (field creds ''refresh_token'') w = (Ok c, w')"
    and "fst (saveCredentials c w') = Throw x"
  shows "refresh_and_save creds w = (Ok JNull, snd (saveCredentials c w'))"
  using assms
  by (cases "saveCredentials c w'")
     (simp add: refresh_and_save_def get_prop_def seq_def ret_def try_catch_def)

text \<open>The refresh of an accessor that started in \<open>w\<close>, when the endpoint answers with a
  success status and a body whose \<open>expires_in\<close> is a number.\<close>

lemma refresh_in_accessor:
  assumes "net w (trace w @ [EvReadFile (CREDS_PATH w)]) (refresh_request w rt) = Inr resp"
    and "ok resp" and "json resp = Inr data" and "field data ''expires_in'' = JNum n"
  shows "\<exists>w'. refreshAccessToken rt (checked w) = (Ok (refreshed w rt data), w')
           \<and> fs_fault w' = fs_fault w \<and> CREDS_PATH w' = CREDS_PATH w
           \<and> num_text w' = num_text w \<and> files w' = files w"
proof -
  from assms(4) have d: "data \<noteq> JUndefined" "data \<noteq> JNull" by auto
  have u: "\<not> unprimitive (field data ''expires_in'')" by (simp add: assms(4))
  have n: "net (checked w) (trace (checked w)) (refresh_request (checked w) rt) = Inr resp"
    using assms(1) by (simp add: checked_sel)
  show ?thesis
    by (simp add: refreshAccessToken_ok [OF n assms(2,3)] credentials_of_object [OF d u]
          refreshed_def emit_sel checked_sel CREDS_PATH_def)
qed

text \<open>
  Claim C7 says that after every successful refresh the accessor returns the new access
  token and the store holds the new refresh token. It does not when the credential cannot
  be saved: the \<open>catch\<close> of the accessor also covers \<open>saveCredentials\<close>. With an expired
  credential A/R, an endpoint that answers B/R2 with \<open>expires_in\<close> 3600, and a file
  system that refuses the write, the exchange succeeds, yet the accessor returns \<open>null\<close>
  and the credential file still holds A/R.
\<close>

theorem refresh_without_save_counterexample:
  "(let data = JObj [(''access_token'', JStr ''B''), (''refresh_token'', JStr ''R2''),
                     (''expires_in'', JNum (Fin 3600))];
        w = (scenario (Some (credential_text ''A'' ''R'' 999000)) 1000000
               (Inr \<lparr>ok = True, statusText = ''OK'', json = Inr data\<rparr>))
              \<lparr>fs_fault := \<lambda>tr op. op = OpWriteFile\<rparr>
    in fst (refreshAccessToken (JStr ''R'') (checked w)) =
         Ok \<lparr>access_token = JStr ''B'', refresh_token = JStr ''R2'', expires_at = Fin 4600000\<rparr>
       \<and> fst (getClaudeAccessToken w) = Ok JNull
       \<and> files (snd (getClaudeAccessToken w)) (CREDS_PATH w) =
           Some (credential_text ''A'' ''R'' 999000))"
proof -
  let ?data = "JObj [(''access_token'', JStr ''B''), (''refresh_token'', JStr ''R2''),
                     (''expires_in'', JNum (Fin 3600))]"
  let ?resp = "\<lparr>ok = True, statusText = ''OK'', json = Inr ?data\<rparr>"
  let ?w0 = "scenario (Some (credential_text ''A'' ''R'' 999000)) 1000000 (Inr ?resp)"
  let ?w = "?w0\<lparr>fs_fault := \<lambda>tr op. op = OpWriteFile\<rparr>"
  let ?creds = "JObj [(''access_token'', JStr ''A''), (''refresh_token'', JStr ''R''),
            (''expires_at'', JNum (Fin 999000))]"
  let ?c = "\<lparr>access_token = JStr ''B'', refresh_token = JStr ''R2'', expires_at = Fin 4600000\<rparr>"
  have st: "stored ?w ?creds"
    by (rule stored_fault [OF stored_scenario_expired])
  have a: "getClaudeAccessToken ?w = refresh_and_save ?creds (checked ?w)"
    using accessor_number [OF st, of 999000] by (simp add: scenario_def)
  have c: "refreshed ?w (JStr ''R'') ?data = ?c"
    by (simp add: refreshed_def scenario_def num_add_def num_mul_def safe_int_def)
  have n: "net ?w (trace ?w @ [EvReadFile (CREDS_PATH ?w)]) (refresh_request ?w (JStr ''R''))
           = Inr ?resp"
    by (simp add: scenario_sel)
  have "\<exists>w'. refreshAccessToken (JStr ''R'') (checked ?w) = (Ok ?c, w')
           \<and> fs_fault w' = fs_fault ?w \<and> CREDS_PATH w' = CREDS_PATH ?w
           \<and> num_text w' = num_text ?w \<and> files w' = files ?w"
    using refresh_in_accessor [OF n, of ?data "Fin 3600"] unfolding c by simp
  then obtain w' where r: "refreshAccessToken (JStr ''R'') (checked ?w) = (Ok ?c, w')"
    and w': "fs_fault w' = fs_fault ?w" "CREDS_PATH w' = CREDS_PATH ?w" "files w' = files ?w"
    by blast
  have f: "\<forall>tr. \<not> fs_fault w' tr OpMkdir \<and> fs_fault w' tr OpWriteFile"
    by (simp add: w')
  note s = saveCredentials_write_fault [OF f, of ?c]
  have "refresh_and_save ?creds (checked ?w) = (Ok JNull, snd (saveCredentials ?c w'))"
    using r s by (simp add: refresh_and_save_unsaved)
  with a r s w' show ?thesis
    by (simp add: Let_def scenario_def CREDS_PATH_def)
qed

text \<open>
  Claim C7, amended. For a stored credential whose \<open>expires_at\<close> is a number not more
  than 60000 ms past the clock reading of the check, when the endpoint answers the refresh
  with a success status and a JSON body whose \<open>expires_in\<close> is a number, and neither the
  creation of the directory nor the write of the file fails, \<open>getClaudeAccessToken\<close>
  returns the \<open>access_token\<close> of the body, and the credential file then holds the JSON
  text of the new credential, whose \<open>refresh_token\<close> is the one of the body, not the one
  sent.
\<close>

theorem refresh_rotation_is_persisted:
  assumes "stored w creds" and "field creds ''expires_at'' = JNum (Fin e)"
    and "\<not> of_int (clock w (trace w @ [EvReadFile (CREDS_PATH w)]) (ticks w)) + 60000 < e"
    and "net w (trace w @ [EvReadFile (CREDS_PATH w)])
           (refresh_request w (field creds ''refresh_token'')) = Inr resp"
    and "ok resp" and "json resp = Inr data" and "field data ''expires_in'' = JNum n"
    and "\<forall>tr. \<not> fs_fault w tr OpMkdir \<and> \<not> fs_fault w tr OpWriteFile"
  shows "fst (getClaudeAccessToken w) = Ok (field data ''access_token'')
         \<and> files (snd (getClaudeAccessToken w)) (CREDS_PATH w) =
             ser (num_text w) ''  '' []
               (creds_obj (refreshed w (field creds ''refresh_token'') data))"
proof -
  from assms(2) have d: "creds \<noteq> JUndefined" "creds \<noteq> JNull" by auto
  let ?rt = "field creds ''refresh_token''"
  let ?c = "refreshed w ?rt data"
  have a: "getClaudeAccessToken w = refresh_and_save creds (checked w)"
    using accessor_number [OF assms(1,2)] assms(3) by simp
  obtain w' where r: "refreshAccessToken ?rt (checked w) = (Ok ?c, w')"
    and w': "fs_fault w' = fs_fault w" "CREDS_PATH w' = CREDS_PATH w" "num_text w' = num_text w"
    using refresh_in_accessor [OF assms(4,5,6,7)] by blast
  have f: "\<forall>tr. \<not> fs_fault w' tr OpMkdir \<and> \<not> fs_fault w' tr OpWriteFile"
    using assms(8) by (simp add: w')
  note s = saveCredentials_no_fault [OF f, of ?c, unfolded w']
  have "refresh_and_save creds (checked w) = (Ok (access_token ?c), snd (saveCredentials ?c w'))"
    using d r s by (simp add: refresh_and_save_ok)
  with a s show ?thesis by (simp add: refreshed_def)
qed

theorem refresh_rotation_is_persisted_witness:
  "(let data = JObj [(''access_token'', JStr ''B''), (''refresh_token'', JStr ''R2''),
                     (''expires_in'', JNum (Fin 3600))];
        w = scenario (Some (credential_text ''A'' ''R'' 999000)) 1000000
              (Inr \<lparr>ok = True, statusText = ''OK'', json = Inr data\<rparr>);
        r = getClaudeAccessToken w
    in fst r = Ok (JStr ''B'')
       \<and> files (snd r) (CREDS_PATH w) = Some (credential_text ''B'' ''R2'' 4600000)
       \<and> JSON_parse (credential_text ''B'' ''R2'' 4600000) =
           Some (JObj [(''access_token'', JStr ''B''), (''refresh_token'', JStr ''R2''),
                       (''expires_at'', JNum (Fin 4600000))]))"
proof -
  let ?data = "JObj [(''access_token'', JStr ''B''), (''refresh_token'', JStr ''R2''),
                     (''expires_in'', JNum (Fin 3600))]"
  let ?resp = "\<lparr>ok = True, statusText = ''OK'', json = Inr ?data\<rparr>"
  let ?w = "scenario (Some (credential_text ''A'' ''R'' 999000)) 1000000 (Inr ?resp)"
  have c: "refreshed ?w (JStr ''R'') ?data =
           \<lparr>access_token = JStr ''B'', refresh_token = JStr ''R2'', expires_at = Fin 4600000\<rparr>"
    by (simp add: refreshed_def scenario_def num_add_def num_mul_def safe_int_def)
  have p: "JSON_parse (credential_text ''B'' ''R2'' 4600000) =
           Some (JObj [(''access_token'', JStr ''B''), (''refresh_token'', JStr ''R2''),
                       (''expires_at'', JNum (Fin 4600000))])"
    by (simp add: text_eval parse_eval)
  show ?thesis
    using refresh_rotation_is_persisted [OF stored_scenario_expired, of 999000 "Inr ?resp" ?resp
            ?data "Fin 3600"] p
      ser_credential_text [of 4600000 _ "''B''" "''R2''", simplified]
    by (simp add: Let_def scenario_sel c)
qed


lemma split_on_none: "c \<notin> set s \<Longrightarrow> split_on c s = [s]"
  by (induction s) auto

lemma split_on_first: "c \<notin> set a \<Longrightarrow> split_on c (a @ c # s) = a # split_on c s"
  by (induction a) auto

lemma split_on_hd: "\<exists>ys. split_on c s = takeWhile (\<lambda>x. x \<noteq> c) s # ys"
  by (induction s) (auto split: list.splits)

lemma elements_compound:
  assumes "c \<notin> set a"
  shows "element (split_on c (a @ c # rest)) 0 = JStr a"
    and "element (split_on c (a @ c # rest)) 1 = JStr (takeWhile (\<lambda>x. x \<noteq> c) rest)"
proof -
  obtain ys where "split_on c rest = takeWhile (\<lambda>x. x \<noteq> c) rest # ys"
    using split_on_hd by blast
  then have s: "split_on c (a @ c # rest) = a # takeWhile (\<lambda>x. x \<noteq> c) rest # ys"
    using assms by (simp add: split_on_first)
  show "element (split_on c (a @ c # rest)) 0 = JStr a"
    and "element (split_on c (a @ c # rest)) 1 = JStr (takeWhile (\<lambda>x. x \<noteq> c) rest)"
    by (simp_all add: s element_def)
qed

section \<open>The authorization-code exchange\<close>

text \<open>
  Claim C5 says that the \<open>state\<close> sent is the part of the input after the delimiter. The
  input is split at every delimiter and only the first two parts are used: for the input
  \<open>a#b#c\<close> the request carries the code \<open>a\<close> and the state \<open>b\<close>, not \<open>b#c\<close>.
\<close>

theorem exchange_state_cut_counterexample:
  \<open>fetches (snd (exchangeCodeForTokens ''a#b#c'' ''v'' (scenario None 1000000 (Inl FetchError)))) =
     [\<lparr>url = ''https://console.anthropic.com/v1/oauth/token'',
       http_method = ''POST'',
       headers = [(''Content-Type'', ''application/json'')],
       body = Some (
          ''{"code":"a","state":"b","grant_type":"authorization_code"''
          @ '',"client_id":"9d1c250a-e61b-44d9-88ed-5944d1962f5e"''
          @ '',"redirect_uri":"https://console.anthropic.com/oauth/code/callback"''
          @ '',"code_verifier":"v"}'')\<rparr>]
   \<and> ''b'' \<noteq> ''b#c''\<close>
  by (simp add: exchangeCodeForTokens_fetches code_request_def token_request_def TOKEN_URL_def
        code_request_body_def element_def Let_def wrap_def quote_def quote_char_def
        CLIENT_ID_def REDIRECT_URI_def scenario_sel)

text \<open>
  Claim C5, amended. For an input \<open>authCode # rest\<close> whose first part does not contain
  the delimiter, the object \<open>exchangeCodeForTokens\<close> serialises has \<open>code\<close> that first
  part and \<open>state\<close> the part of \<open>rest\<close> before its first delimiter (all of \<open>rest\<close> when
  it has none), with grant type \<open>authorization_code\<close>, the fixed client id, the fixed
  redirect target and the verifier; the one request the function sends is the POST of that
  JSON text to the token endpoint, with content type \<open>application/json\<close>.
\<close>

theorem exchange_splits_compound_code:
  assumes "CHR ''#'' \<notin> set authCode"
  shows \<open>code_request_body (authCode @ ''#'' @ rest) vrf =
           JObj [(''code'', JStr authCode),
                 (''state'', JStr (takeWhile (\<lambda>c. c \<noteq> CHR ''#'') rest)),
                 (''grant_type'', JStr ''authorization_code''),
                 (''client_id'', JStr ''9d1c250a-e61b-44d9-88ed-5944d1962f5e''),
                 (''redirect_uri'', JStr ''https://console.anthropic.com/oauth/code/callback''),
                 (''code_verifier'', JStr vrf)]
       \<and> fetches (snd (exchangeCodeForTokens (authCode @ ''#'' @ rest) vrf w)) =
           fetches w @
           [\<lparr>url = ''https://console.anthropic.com/v1/oauth/token'',
             http_method = ''POST'',
             headers = [(''Content-Type'', ''application/json'')],
             body = Some (
               ''{"code":'' @ quote authCode
               @ '',"state":'' @ quote (takeWhile (\<lambda>c. c \<noteq> CHR ''#'') rest)
               @ '',"grant_type":"authorization_code"''
               @ '',"client_id":"9d1c250a-e61b-44d9-88ed-5944d1962f5e"''
               @ '',"redirect_uri":"https://console.anthropic.com/oauth/code/callback"''
               @ '',"code_verifier":'' @ quote vrf @ ''}'')\<rparr>]\<close>
proof -
  have b: "code_request_body (authCode @ ''#'' @ rest) vrf =
           JObj [(''code'', JStr authCode),
                 (''state'', JStr (takeWhile (\<lambda>c. c \<noteq> CHR ''#'') rest)),
                 (''grant_type'', JStr ''authorization_code''),
                 (''client_id'', JStr CLIENT_ID),
                 (''redirect_uri'', JStr REDIRECT_URI),
                 (''code_verifier'', JStr vrf)]"
    using elements_compound [OF assms, of rest]
    by (simp add: code_request_body_def Let_def)
  show ?thesis
    unfolding exchangeCodeForTokens_fetches code_request_def b
    by (simp add: wrap_def quote_def quote_char_def CLIENT_ID_def REDIRECT_URI_def
          token_request_def TOKEN_URL_def)
qed

theorem exchange_splits_compound_code_witness:
  \<open>CHR ''#'' \<notin> set ''abc123''
   \<and> code_request_body ''abc123#xyzstate'' ''v'' =
       JObj [(''code'', JStr ''abc123''),
             (''state'', JStr ''xyzstate''),
             (''grant_type'', JStr ''authorization_code''),
             (''client_id'', JStr ''9d1c250a-e61b-44d9-88ed-5944d1962f5e''),
             (''redirect_uri'', JStr ''https://console.anthropic.com/oauth/code/callback''),
             (''code_verifier'', JStr ''v'')]
   \<and> fetches (snd (exchangeCodeForTokens ''abc123#xyzstate'' ''v''
         (scenario None 1000000 (Inl FetchError)))) =
       [\<lparr>url = ''https://console.anthropic.com/v1/oauth/token'',
         http_method = ''POST'',
         headers = [(''Content-Type'', ''application/json'')],
         body = Some (
          ''{"code":"abc123","state":"xyzstate","grant_type":"authorization_code"''
          @ '',"client_id":"9d1c250a-e61b-44d9-88ed-5944d1962f5e"''
          @ '',"redirect_uri":"https://console.anthropic.com/oauth/code/callback"''
          @ '',"code_verifier":"v"}'')\<rparr>]\<close>
  using exchange_splits_compound_code [of "''abc123''" "''xyzstate''" "''v''"
          "scenario None 1000000 (Inl FetchError)"]
  by (simp add: scenario_sel quote_def quote_char_def)

text \<open>
  Claim C10. For an input without the delimiter, the whole input is the \<open>code\<close>, the
  \<open>state\<close> is \<open>undefined\<close>, and the request is sent all the same: the POST to the token
  endpoint whose JSON text has no \<open>state\<close> member.
\<close>

theorem exchange_without_delimiter:
  assumes "CHR ''#'' \<notin> set code"
  shows \<open>code_request_body code vrf =
           JObj [(''code'', JStr code),
                 (''state'', JUndefined),
                 (''grant_type'', JStr ''authorization_code''),
                 (''client_id'', JStr ''9d1c250a-e61b-44d9-88ed-5944d1962f5e''),
                 (''redirect_uri'', JStr ''https://console.anthropic.com/oauth/code/callback''),
                 (''code_verifier'', JStr vrf)]
       \<and> fetches (snd (exchangeCodeForTokens code vrf w)) =
           fetches w @
           [\<lparr>url = ''https://console.anthropic.com/v1/oauth/token'',
             http_method = ''POST'',
             headers = [(''Content-Type'', ''application/json'')],
             body = Some (
               ''{"code":'' @ quote code
               @ '',"grant_type":"authorization_code"''
               @ '',"client_id":"9d1c250a-e61b-44d9-88ed-5944d1962f5e"''
               @ '',"redirect_uri":"https://console.anthropic.com/oauth/code/callback"''
               @ '',"code_verifier":'' @ quote vrf @ ''}'')\<rparr>]\<close>
proof -
  have b: "code_request_body code vrf =
           JObj [(''code'', JStr code),
                 (''state'', JUndefined),
                 (''grant_type'', JStr ''authorization_code''),
                 (''client_id'', JStr CLIENT_ID),
                 (''redirect_uri'', JStr REDIRECT_URI),
                 (''code_verifier'', JStr vrf)]"
    using assms
    by (simp add: code_request_body_def split_on_none element_def Let_def)
  show ?thesis
    unfolding exchangeCodeForTokens_fetches code_request_def b
    by (simp add: wrap_def quote_def quote_char_def CLIENT_ID_def REDIRECT_URI_def
          token_request_def TOKEN_URL_def)
qed

theorem exchange_without_delimiter_witness:
  \<open>CHR ''#'' \<notin> set ''abc123''
   \<and> code_request_body ''abc123'' ''v'' =
       JObj [(''code'', JStr ''abc123''),
             (''state'', JUndefined),
             (''grant_type'', JStr ''authorization_code''),
             (''client_id'', JStr ''9d1c250a-e61b-44d9-88ed-5944d1962f5e''),
             (''redirect_uri'', JStr ''https://console.anthropic.com/oauth/code/callback''),
             (''code_verifier'', JStr ''v'')]
   \<and> fetches (snd (exchangeCodeForTokens ''abc123'' ''v''
         (scenario None 1000000 (Inl FetchError)))) =
       [\<lparr>url = ''https://console.anthropic.com/v1/oauth/token'',
         http_method = ''POST'',
         headers = [(''Content-Type'', ''application/json'')],
         body = Some (
          ''{"code":"abc123","grant_type":"authorization_code"''
          @ '',"client_id":"9d1c250a-e61b-44d9-88ed-5944d1962f5e"''
          @ '',"redirect_uri":"https://console.anthropic.com/oauth/code/callback"''
          @ '',"code_verifier":"v"}'')\<rparr>]\<close>
  using exchange_without_delimiter [of "''abc123''" "''v''"
          "scenario None 1000000 (Inl FetchError)"]
  by (simp add: scenario_sel quote_def quote_char_def)

section \<open>Loading\<close>

text \<open>
  Claim C2 says that loading yields a credential with all three fields or \<open>null\<close>. It
  does not: the parsed value is returned unchecked. A credential file holding the
  well-formed JSON text of an object with only an \<open>access_token\<close> is loaded as that
  object, which is not \<open>null\<close> and lacks two of the three fields.
\<close>

theorem loadCredentials_partial_file_counterexample:
  \<open>fst (loadCredentials (scenario (Some ''{"access_token":"A"}'') 1000000 (Inl FetchError))) =
     Ok (JObj [(''access_token'', JStr ''A'')])
   \<and> JObj [(''access_token'', JStr ''A'')] \<noteq> JNull
   \<and> \<not> complete_credential (JObj [(''access_token'', JStr ''A'')])\<close>
proof -
  have \<open>stored (scenario (Some ''{"access_token":"A"}'') 1000000 (Inl FetchError))
          (JObj [(''access_token'', JStr ''A'')])\<close>
    by (simp add: stored_def scenario_def CREDS_PATH_def parse_eval)
  then show ?thesis
    by (simp add: load_stored complete_credential_def)
qed

text \<open>
  Claim C2, amended. \<open>loadCredentials\<close> never throws and leaves the files alone: it
  returns \<open>null\<close> when the file cannot be read (a fault of the file system, or no such
  file) and when its text is not well-formed JSON; otherwise it returns the value the text
  parses to, as it is.
\<close>

theorem loadCredentials_never_throws:
  "fst (loadCredentials w) =
     (if fs_fault w (trace w) OpReadFile then Ok JNull
      else case files w (CREDS_PATH w) of
        None \<Rightarrow> Ok JNull
      | Some text \<Rightarrow> (case JSON_parse text of None \<Rightarrow> Ok JNull | Some v \<Rightarrow> Ok v))
   \<and> files (snd (loadCredentials w)) = files w"
  by (simp add: loadCredentials_def try_catch_def seq_def fs_readFile_def
        JSON_parse_or_throw_def ret_def throw_def Let_def emit_def split: option.splits)

theorem loadCredentials_never_throws_witness:
  \<open>fst (loadCredentials (scenario (Some (credential_text ''A'' ''R'' 1061000)) 1000000 (Inl FetchError))) =
     Ok (JObj [(''access_token'', JStr ''A''), (''refresh_token'', JStr ''R''),
               (''expires_at'', JNum (Fin 1061000))])
   \<and> complete_credential (JObj [(''access_token'', JStr ''A''), (''refresh_token'', JStr ''R''),
               (''expires_at'', JNum (Fin 1061000))])
   \<and> fst (loadCredentials (scenario None 1000000 (Inl FetchError))) = Ok JNull
   \<and> fst (loadCredentials (scenario (Some ''{"access_token":'') 1000000 (Inl FetchError))) = Ok JNull
   \<and> fst (loadCredentials
        ((scenario (Some (credential_text ''A'' ''R'' 1061000)) 1000000 (Inl FetchError))
           \<lparr>fs_fault := \<lambda>tr op. op = OpReadFile\<rparr>)) = Ok JNull\<close>
  using loadCredentials_never_throws
          [of "scenario (Some (credential_text ''A'' ''R'' 1061000)) 1000000 (Inl FetchError)"]
        loadCredentials_never_throws [of "scenario None 1000000 (Inl FetchError)"]
        loadCredentials_never_throws
          [of \<open>scenario (Some ''{"access_token":'') 1000000 (Inl FetchError)\<close>]
        loadCredentials_never_throws
          [of "(scenario (Some (credential_text ''A'' ''R'' 1061000)) 1000000 (Inl FetchError))
                 \<lparr>fs_fault := \<lambda>tr op. op = OpReadFile\<rparr>"]
  by (simp add: scenario_def CREDS_PATH_def text_eval parse_eval complete_credential_def)

lemma length_base64url: "length (base64url bs) = (4 * length bs + 2) div 3"
  by (induction bs rule: base64url.induct) simp_all

lemma distinct_alphabet: "distinct b64url_alphabet"
  by (simp add: b64url_alphabet_def)

lemma length_alphabet: "length b64url_alphabet = 64"
  by (simp add: b64url_alphabet_def)

lemma b64char_alphabet: "b64char n \<in> set b64url_alphabet"
  by (simp add: b64char_def length_alphabet)

lemma base64url_alphabet: "set (base64url bs) \<subseteq> set b64url_alphabet"
  by (induction bs rule: base64url.induct) (simp_all add: b64char_alphabet)

lemma alphabet_url_safe:
  "CHR ''='' \<notin> set b64url_alphabet" "CHR ''+'' \<notin> set b64url_alphabet"
  "CHR ''/'' \<notin> set b64url_alphabet"
  by (simp_all add: b64url_alphabet_def)

lemma b64char_inj: "a < 64 \<Longrightarrow> b < 64 \<Longrightarrow> b64char a = b64char b \<Longrightarrow> a = b"
  using nth_eq_iff_index_eq [OF distinct_alphabet, of a b]
  by (simp add: b64char_def length_alphabet)

lemma sextets:
  fixes a b c :: nat
  assumes "a < 256" "b < 256" "c < 256"
  shows "a div 4 < 64" "a mod 4 * 16 + b div 16 < 64" "b mod 16 * 4 + c div 64 < 64"
    "c mod 64 < 64" "a mod 4 * 16 < 64" "b mod 16 * 4 < 64"
proof -
  have m: "a mod 4 \<le> 3" "b mod 16 \<le> 15" by simp_all
  have d: "b div 16 \<le> 15" "c div 64 \<le> 3" using assms by simp_all
  show "a div 4 < 64" using assms by simp
  show "a mod 4 * 16 + b div 16 < 64" using m d by simp
  show "b mod 16 * 4 + c div 64 < 64" using m d by simp
  show "c mod 64 < 64" by simp
  show "a mod 4 * 16 < 64" using m by simp
  show "b mod 16 * 4 < 64" using m by simp
qed

lemma two_digits:
  fixes h l h' l' k :: nat
  assumes "l < k" "l' < k" "h * k + l = h' * k + l'"
  shows "h = h'" "l = l'"
proof -
  have "(h * k + l) div k = h" "(h' * k + l') div k = h'" using assms(1,2) by simp_all
  with assms(3) show "h = h'" by simp
  have "(h * k + l) mod k = l" "(h' * k + l') mod k = l'" using assms(1,2) by simp_all
  with assms(3) show "l = l'" by simp
qed

lemma from_digits:
  fixes a a' k :: nat
  assumes "a div k = a' div k" "a mod k = a' mod k"
  shows "a = a'"
  using assms by (metis div_mult_mod_eq)

lemma base64url_inj:
  assumes "length xs = length ys" "\<forall>x\<in>set xs. x < 256" "\<forall>y\<in>set ys. y < 256"
    and "base64url xs = base64url ys"
  shows "xs = ys"
  using assms
proof (induction xs arbitrary: ys rule: base64url.induct)
  case (1 a b c rest)
  from 1(2) have "length ys = Suc (Suc (Suc (length rest)))" by simp
  then obtain a' b' c' rest' where ys: "ys = a' # b' # c' # rest'"
    by (auto simp: length_Suc_conv)
  from 1(3,4) ys have lt: "a < 256" "b < 256" "c < 256" "a' < 256" "b' < 256" "c' < 256"
    by auto
  from 1(5) ys have e: "b64char (a div 4) = b64char (a' div 4)"
    "b64char (a mod 4 * 16 + b div 16) = b64char (a' mod 4 * 16 + b' div 16)"
    "b64char (b mod 16 * 4 + c div 64) = b64char (b' mod 16 * 4 + c' div 64)"
    "b64char (c mod 64) = b64char (c' mod 64)"
    and r: "base64url rest = base64url rest'"
    by auto
  note s = sextets [OF lt(1,2,3)] and s' = sextets [OF lt(4,5,6)]
  have q1: "a div 4 = a' div 4" using e(1) s(1) s'(1) by (rule_tac b64char_inj)
  have q2: "a mod 4 * 16 + b div 16 = a' mod 4 * 16 + b' div 16"
    using e(2) s(2) s'(2) by (rule_tac b64char_inj)
  have q3: "b mod 16 * 4 + c div 64 = b' mod 16 * 4 + c' div 64"
    using e(3) s(3) s'(3) by (rule_tac b64char_inj)
  have q4: "c mod 64 = c' mod 64" using e(4) s(4) s'(4) by (rule_tac b64char_inj)
  have d: "b div 16 < 16" "b' div 16 < 16" "c div 64 < 4" "c' div 64 < 4"
    using lt by simp_all
  have "a = a'" using q1 two_digits(1) [OF d(1,2) q2] by (rule from_digits)
  moreover have "b = b'"
    using two_digits(2) [OF d(1,2) q2] two_digits(1) [OF d(3,4) q3] by (rule from_digits)
  moreover have "c = c'" using two_digits(2) [OF d(3,4) q3] q4 by (rule from_digits)
  moreover have "rest = rest'"
    using 1(1) [of rest'] 1(2,3,4) ys r by auto
  ultimately show ?case using ys by simp
next
  case (2 a b)
  from 2(1) have "length ys = Suc (Suc 0)" by simp
  then obtain a' b' where ys: "ys = [a', b']"
    by (auto simp: length_Suc_conv)
  from 2(2,3) ys have lt: "a < 256" "b < 256" "a' < 256" "b' < 256" by auto
  from 2(4) ys have e: "b64char (a div 4) = b64char (a' div 4)"
    "b64char (a mod 4 * 16 + b div 16) = b64char (a' mod 4 * 16 + b' div 16)"
    "b64char (b mod 16 * 4) = b64char (b' mod 16 * 4)"
    by auto
  note s = sextets [OF lt(1,2,2)] and s' = sextets [OF lt(3,4,4)]
  have q1: "a div 4 = a' div 4" using e(1) s(1) s'(1) by (rule_tac b64char_inj)
  have q2: "a mod 4 * 16 + b div 16 = a' mod 4 * 16 + b' div 16"
    using e(2) s(2) s'(2) by (rule_tac b64char_inj)
  have q3: "b mod 16 * 4 = b' mod 16 * 4" using e(3) s(6) s'(6) by (rule_tac b64char_inj)
  have d: "b div 16 < 16" "b' div 16 < 16" using lt by simp_all
  have "a = a'" using q1 two_digits(1) [OF d(1,2) q2] by (rule from_digits)
  moreover have "b mod 16 = b' mod 16" using q3 by simp
  then have "b = b'" using two_digits(2) [OF d(1,2) q2] by (rule_tac from_digits)
  ultimately show ?case using ys by simp
next
  case (3 a)
  from 3(1) have "length ys = Suc 0" by simp
  then obtain a' where ys: "ys = [a']"
    by (auto simp: length_Suc_conv)
  from 3(2,3) ys have lt: "a < 256" "a' < 256" by auto
  from 3(4) ys have e: "b64char (a div 4) = b64char (a' div 4)"
    "b64char (a mod 4 * 16) = b64char (a' mod 4 * 16)"
    by auto
  note s = sextets [OF lt(1,1,1)] and s' = sextets [OF lt(2,2,2)]
  have q1: "a div 4 = a' div 4" using e(1) s(1) s'(1) by (rule_tac b64char_inj)
  have "a mod 4 * 16 = a' mod 4 * 16" using e(2) s(5) s'(5) by (rule_tac b64char_inj)
  then have "a mod 4 = a' mod 4" by simp
  with q1 have "a = a'" by (rule from_digits)
  then show ?case using ys by simp
next
  case 4
  then show ?case by simp
qed

lemma loop_append_length:
  "length (loop i j (\<lambda>k r. r @ [g k]) acc) = length acc + (j - i)"
proof (induction i j "\<lambda>k r. r @ [g k]" acc rule: loop.induct)
  case (1 i j s)
  then show ?case by (subst loop.simps) auto
qed

lemma length_compress: "length (compress hs block) = 8"
proof -
  have "\<And>s. length (loop 0 8 (\<lambda>i r. r @ [w32 (hs ! i + s ! i)]) []) = 8"
    using loop_append_length [of 0 8 _ "[]"] by simp
  then show ?thesis by (simp add: compress_def Let_def)
qed

lemma length_foldl_compress: "length hs = 8 \<Longrightarrow> length (foldl compress hs bl) = 8"
  by (induction bl arbitrary: hs) (simp_all add: length_compress)

lemma length_sha256: "length (sha256 m) = 32"
proof -
  have h: "length H256 = 8" by (simp add: H256_def)
  have "\<And>ws. length (concat (map be_bytes ws)) = 4 * length ws"
    by (induct_tac ws) (simp_all add: be_bytes_def)
  then show ?thesis
    by (simp add: sha256_def length_foldl_compress [OF h])
qed


lemma generatePKCE_unfold:
  "generatePKCE w =
     (Ok \<lparr>verifier = base64url (drawn_bytes w 0),
          challenge = base64url (sha256 (utf8 (base64url (drawn_bytes w 0))))\<rparr>,
      (emit (EvRandomBytes 32) w)\<lparr>drawn := drawn w + 32\<rparr>)"
  by (simp add: generatePKCE_def randomBytes_def seq_def ret_def Let_def drawn_bytes_def)

lemma drawn_bytes_next:
  "drawn_bytes ((emit (EvRandomBytes 32) w)\<lparr>drawn := drawn w + 32\<rparr>) 0 = drawn_bytes w 32"
  by (simp add: drawn_bytes_def emit_def)

lemma drawn_bytes_facts:
  "length (drawn_bytes w k) = 32" "\<forall>b\<in>set (drawn_bytes w k). b < 256"
  by (simp_all add: drawn_bytes_def)

lemma upt_32: "[0..<32] = [0, 1, 2, 3, 4, 5, 6, 7, 8, 9, 10, 11, 12, 13, 14, 15, 16, 17, 18, 19,
    20, 21, 22, 23, 24, 25, 26, 27, 28, 29, 30, 31]"
  by (simp add: upt_rec)

lemmas sha_eval = sha256_def utf8_def utf8_char_def char_code_def sha_pad_def zeros_def loop.simps
  compress_def sha_round_def schedule_def be_bytes_def blocks16.simps w32_def rotr_def
  Ch_def Maj_def Sigma0_def Sigma1_def sigma0_def sigma1_def K256_def H256_def Let_def

lemma rfc7636_bytes:
  "drawn_bytes ((scenario None 1000000 (Inl FetchError))
      \<lparr>secure_random := \<lambda>i. [116, 24, 223, 180, 151, 153, 224, 37, 79, 250, 96, 125, 216, 173, 187, 186, 22, 212, 37, 77, 105, 214, 191, 240, 91, 88, 5, 88, 83, 132, 141, 121] ! (i mod 32)\<rparr>) 0 = [116, 24, 223, 180, 151, 153, 224, 37, 79, 250, 96, 125, 216, 173, 187, 186, 22, 212, 37, 77, 105, 214, 191, 240, 91, 88, 5, 88, 83, 132, 141, 121]"
  by (simp add: drawn_bytes_def scenario_def upt_32)

lemma rfc7636_verifier: "base64url [116, 24, 223, 180, 151, 153, 224, 37, 79, 250, 96, 125, 216, 173, 187, 186, 22, 212, 37, 77, 105, 214, 191, 240, 91, 88, 5, 88, 83, 132, 141, 121] = ''dBjftJeZ4CVP-mB92K27uhbUJU1p1r_wW1gFWFOEjXk''"
  by (simp add: b64char_def b64url_alphabet_def)

lemma rfc7636_challenge:
  "base64url (sha256 (utf8 ''dBjftJeZ4CVP-mB92K27uhbUJU1p1r_wW1gFWFOEjXk'')) =
   ''E9Melhoa2OwvFrEMTJguCHaoeK1t8URWbuGJSstw-cM''"
  by (simp add: sha_eval b64char_def b64url_alphabet_def)

section \<open>PKCE generator\<close>

text \<open>
  Claim C4. The random source is the cryptographically secure generator of the platform,
  \<open>crypto.randomBytes\<close>, which the world provides as the stream \<open>secure_random\<close>; what
  the generator does with it is this. Every call draws 32 fresh bytes, that is 256 bits,
  from that stream and from nothing else. The verifier is their \<open>base64url\<close> text: 43
  characters of the alphabet of letters, digits, \<open>-\<close> and \<open>_\<close>, which has no padding
  character, no \<open>+\<close> and no \<open>/\<close>. The challenge is the \<open>base64url\<close> text of the SHA-256
  digest of the bytes of the verifier's text, again 43 such characters. The next call draws
  the next 32 bytes, and since the encoding is one-to-one its verifier equals the first one
  exactly when the two draws are equal: two successive verifiers collide only if the
  source repeats 256 bits.
\<close>

theorem generatePKCE_pair:
  "(let vrf = base64url (drawn_bytes w 0);
        chl = base64url (sha256 (utf8 vrf));
        vrf' = base64url (drawn_bytes w 32)
    in fst (generatePKCE w) = Ok \<lparr>verifier = vrf, challenge = chl\<rparr>
       \<and> length (drawn_bytes w 0) = 32
       \<and> length vrf = 43 \<and> set vrf \<subseteq> set b64url_alphabet
       \<and> length chl = 43 \<and> set chl \<subseteq> set b64url_alphabet
       \<and> CHR ''='' \<notin> set b64url_alphabet \<and> CHR ''+'' \<notin> set b64url_alphabet
       \<and> CHR ''/'' \<notin> set b64url_alphabet
       \<and> fst (generatePKCE (snd (generatePKCE w))) =
           Ok \<lparr>verifier = vrf', challenge = base64url (sha256 (utf8 vrf'))\<rparr>
       \<and> (vrf' = vrf \<longleftrightarrow> drawn_bytes w 32 = drawn_bytes w 0))"
proof -
  have i: "base64url (drawn_bytes w 32) = base64url (drawn_bytes w 0)
           \<longleftrightarrow> drawn_bytes w 32 = drawn_bytes w 0"
    using base64url_inj [of "drawn_bytes w 32" "drawn_bytes w 0"] drawn_bytes_facts
    by auto
  show ?thesis
    unfolding Let_def
    by (simp add: generatePKCE_unfold drawn_bytes_next length_base64url drawn_bytes_facts
          length_sha256 base64url_alphabet alphabet_url_safe i)
qed

text \<open>The example of RFC 7636, Appendix B: its 32 octets give its verifier and its
  challenge.\<close>

theorem generatePKCE_pair_witness:
  "fst (generatePKCE ((scenario None 1000000 (Inl FetchError))
      \<lparr>secure_random := \<lambda>i. [116, 24, 223, 180, 151, 153, 224, 37, 79, 250, 96, 125, 216, 173, 187, 186, 22, 212, 37, 77, 105, 214, 191, 240, 91, 88, 5, 88, 83, 132, 141, 121] ! (i mod 32)\<rparr>)) =
   Ok \<lparr>verifier = ''dBjftJeZ4CVP-mB92K27uhbUJU1p1r_wW1gFWFOEjXk'',
       challenge = ''E9Melhoa2OwvFrEMTJguCHaoeK1t8URWbuGJSstw-cM''\<rparr>
   \<and> set ''dBjftJeZ4CVP-mB92K27uhbUJU1p1r_wW1gFWFOEjXk'' \<subseteq> set b64url_alphabet"
  using generatePKCE_pair [of "(scenario None 1000000 (Inl FetchError))
      \<lparr>secure_random := \<lambda>i. [116, 24, 223, 180, 151, 153, 224, 37, 79, 250, 96, 125, 216, 173, 187, 186, 22, 212, 37, 77, 105, 214, 191, 240, 91, 88, 5, 88, 83, 132, 141, 121] ! (i mod 32)\<rparr>"]
  unfolding Let_def rfc7636_bytes rfc7636_verifier rfc7636_challenge
  by simp

section \<open>Interactive authentication flow\<close>

text \<open>
  Claim C9. Whenever the accessor yields a token, that is returns a value the test
  \<open>if (existingToken)\<close> takes for true, \<open>authenticateWithClaude\<close> returns that token and
  leaves the world exactly as the one call of the accessor left it: no random bytes drawn,
  no command executed, no hook called, no input read, no further request sent and no further
  file written.
\<close>

theorem authenticateWithClaude_short_circuit:
  assumes "getClaudeAccessToken w = (Ok token, w')" and "truthy token"
  shows "authenticateWithClaude callbacks w = (Ok token, w')"
  using assms by (simp add: authenticateWithClaude_def seq_def ret_def)

theorem authenticateWithClaude_short_circuit_witness:
  "(let w = scenario (Some (credential_text ''A'' ''R'' 1061000)) 1000000 (Inl FetchError)
    in getClaudeAccessToken w = (Ok (JStr ''A''), checked w)
       \<and> truthy (JStr ''A'')
       \<and> authenticateWithClaude None w = (Ok (JStr ''A''), checked w)
       \<and> trace (checked w) = [EvReadFile (CREDS_PATH w)]
       \<and> drawn (checked w) = 0)"
proof -
  let ?w = "scenario (Some (credential_text ''A'' ''R'' 1061000)) 1000000 (Inl FetchError)"
  have a: "getClaudeAccessToken ?w = (Ok (JStr ''A''), checked ?w)"
    using accessor_number [OF stored_scenario_61, of 1061000 "Inl FetchError"]
    by (simp add: scenario_sel)
  have t: "truthy (JStr ''A'')" by simp
  show ?thesis
    using authenticateWithClaude_short_circuit [OF a t, of None] a
    by (simp add: Let_def checked_sel scenario_sel checked_def emit_def scenario_def)
qed

end
